theory Spec2Isabelle
  imports Main "HOL-Library.Word" "HOL-Library.AList" "HOL-Library.Sublist"
begin

section \<open>Python exceptions and results\<close>

text \<open>
  The utilities of \<^verbatim>\<open>utils/utils.py\<close> and \<^verbatim>\<open>check_md5_tags.py\<close> are glue around
  the file system, an HTTP client, a tag library and an external transcoder. Every
  \<^verbatim>\<open>raise\<close> of the source and every failure of a collaborator is a value of \<open>exn\<close>;
  a computation that may raise returns \<open>exn + 'a\<close>, with \<open>Inl\<close> for the exception.
  Each exception carries the text that \<^verbatim>\<open>str(e)\<close> yields, since the source formats
  it into the messages it prints and re-raises.

  \<open>OSError\<close> carries its errno: Python raises the subclass \<^verbatim>\<open>PermissionError\<close> for
  \<open>EACCES\<close> and \<open>EPERM\<close> and \<^verbatim>\<open>FileNotFoundError\<close> for \<open>ENOENT\<close>.
  \<open>LibraryError\<close> stands for the \<^verbatim>\<open>Exception\<close> subclasses of the libraries
  (mutagen, subprocess, requests, PIL, pickle). \<open>KeyboardInterrupt\<close> is the one
  modelled exception that does not derive from \<^verbatim>\<open>Exception\<close>.
\<close>

datatype errno = ENOENT | EACCES | EPERM | EEXIST | EIO | ENOSPC

datatype exn =
    KeyboardInterrupt
  | OSError errno string
  | Exception string
  | ValueError string
  | KeyError string
  | TypeError string
  | IndexError string
  | UnicodeEncodeError string
  | UnicodeDecodeError string
  | RuntimeError string
  | AttributeError string
  | LibraryError string

fun exn_str :: "exn \<Rightarrow> string" where
  "exn_str KeyboardInterrupt = []"
| "exn_str (OSError n m) = m"
| "exn_str (Exception m) = m"
| "exn_str (ValueError m) = m"
| "exn_str (KeyError m) = m"
| "exn_str (TypeError m) = m"
| "exn_str (IndexError m) = m"
| "exn_str (UnicodeEncodeError m) = m"
| "exn_str (UnicodeDecodeError m) = m"
| "exn_str (RuntimeError m) = m"
| "exn_str (AttributeError m) = m"
| "exn_str (LibraryError m) = m"

text \<open>\<^verbatim>\<open>except Exception\<close>, \<^verbatim>\<open>except (OSError, IOError)\<close>, \<^verbatim>\<open>except PermissionError\<close>.\<close>

fun is_Exception :: "exn \<Rightarrow> bool" where
  "is_Exception KeyboardInterrupt = False"
| "is_Exception _ = True"

fun is_OSError :: "exn \<Rightarrow> bool" where
  "is_OSError (OSError n m) = True"
| "is_OSError _ = False"

fun is_PermissionError :: "exn \<Rightarrow> bool" where
  "is_PermissionError (OSError n m) = (n = EACCES \<or> n = EPERM)"
| "is_PermissionError _ = False"

fun is_KeyboardInterrupt :: "exn \<Rightarrow> bool" where
  "is_KeyboardInterrupt KeyboardInterrupt = True"
| "is_KeyboardInterrupt _ = False"

definition ebind :: "exn + 'a \<Rightarrow> ('a \<Rightarrow> exn + 'b) \<Rightarrow> exn + 'b" where
  "ebind m f = (case m of Inl e \<Rightarrow> Inl e | Inr x \<Rightarrow> f x)"

section \<open>The temporary settings store\<close>

text \<open>
  The settings file holds one pickled value, a nested dictionary
  \<^verbatim>\<open>{'modules': {module: {'selected': name, 'sessions': {name: session}}}}\<close>.
  \<open>pyval\<close> is the part of Python's values such a blob is built from. Dictionaries are
  association lists in insertion order with string keys (module, session and setting
  names). \<^verbatim>\<open>pickle.load\<close> of what \<^verbatim>\<open>pickle.dump\<close> wrote gives back an equal value,
  so the store maps a location to the value its file unpickles to; a location with no
  file is \<open>None\<close>.
\<close>

datatype pyval =
    VNone
  | VBool bool
  | VInt int
  | VStr string
  | VList "pyval list"
  | VDict "(string \<times> pyval) list"

type_synonym settings_fs = "string \<rightharpoonup> pyval"

text \<open>Truth value testing (\<^verbatim>\<open>if x\<close>, \<^verbatim>\<open>not x\<close>).\<close>

fun truthy :: "pyval \<Rightarrow> bool" where
  "truthy VNone = False"
| "truthy (VBool b) = b"
| "truthy (VInt i) = (i \<noteq> 0)"
| "truthy (VStr s) = (s \<noteq> [])"
| "truthy (VList l) = (l \<noteq> [])"
| "truthy (VDict d) = (d \<noteq> [])"

text \<open>An optional string argument (\<^verbatim>\<open>root_setting=None\<close>, \<^verbatim>\<open>setting=None\<close>).\<close>

fun opt_truthy :: "string option \<Rightarrow> bool" where
  "opt_truthy None = False"
| "opt_truthy (Some s) = (s \<noteq> [])"

fun opt_str :: "string option \<Rightarrow> string" where
  "opt_str None = []"
| "opt_str (Some s) = s"

text \<open>
  Sequence indexing: a negative index counts from the end, \<^verbatim>\<open>bool\<close> is an \<^verbatim>\<open>int\<close>.
\<close>

fun key_index :: "pyval \<Rightarrow> int option" where
  "key_index (VInt i) = Some i"
| "key_index (VBool b) = Some (if b then 1 else 0)"
| "key_index _ = None"

definition seq_index :: "nat \<Rightarrow> int \<Rightarrow> nat option" where
  "seq_index n i =
     (let j = (if i < 0 then i + int n else i)
      in if 0 \<le> j \<and> j < int n then Some (nat j) else None)"

text \<open>\<^verbatim>\<open>v[k]\<close>. A dictionary of the model has string keys only, so any other hashable key is missing.\<close>

fun getitem :: "pyval \<Rightarrow> pyval \<Rightarrow> exn + pyval" where
  "getitem (VDict d) (VStr k) = (case map_of d k of Some v \<Rightarrow> Inr v | None \<Rightarrow> Inl (KeyError k))"
| "getitem (VDict d) (VList l) = Inl (TypeError ''unhashable type: list'')"
| "getitem (VDict d) (VDict e) = Inl (TypeError ''unhashable type: dict'')"
| "getitem (VDict d) k = Inl (KeyError ''key'')"
| "getitem (VList l) k =
     (case key_index k of
        None \<Rightarrow> Inl (TypeError ''list indices must be integers or slices'')
      | Some i \<Rightarrow>
         (case seq_index (length l) i of
            None \<Rightarrow> Inl (IndexError ''list index out of range'')
          | Some j \<Rightarrow> Inr (l ! j)))"
| "getitem (VStr s) k =
     (case key_index k of
        None \<Rightarrow> Inl (TypeError ''string indices must be integers'')
      | Some i \<Rightarrow>
         (case seq_index (length s) i of
            None \<Rightarrow> Inl (IndexError ''string index out of range'')
          | Some j \<Rightarrow> Inr (VStr [s ! j])))"
| "getitem v k = Inl (TypeError ''object is not subscriptable'')"

text \<open>\<^verbatim>\<open>k in v\<close> for a string \<open>k\<close>: key of a dictionary, element of a list, substring of a string.\<close>

fun contains :: "string \<Rightarrow> pyval \<Rightarrow> exn + bool" where
  "contains k (VDict d) = Inr (map_of d k \<noteq> None)"
| "contains k (VList l) = Inr (VStr k \<in> set l)"
| "contains k (VStr s) = Inr (sublist k s)"
| "contains k v = Inl (TypeError ''argument is not iterable'')"

text \<open>\<^verbatim>\<open>v[k] = x\<close> for a string \<open>k\<close>.\<close>

fun setitem :: "pyval \<Rightarrow> string \<Rightarrow> pyval \<Rightarrow> exn + pyval" where
  "setitem (VDict d) k x = Inr (VDict (AList.update k x d))"
| "setitem (VList l) k x = Inl (TypeError ''list indices must be integers or slices'')"
| "setitem v k x = Inl (TypeError ''object does not support item assignment'')"

text \<open>
  \<^verbatim>\<open>session\<close> is a reference into \<^verbatim>\<open>temporary_settings\<close>: the assignment through it
  changes the blob that is dumped afterwards. The model has values, not references, so it
  puts the changed session back along the path by which the source reached it (the blob
  is a tree: no object is shared between two places). \<open>put_back v k x\<close> is \<open>v\<close> with the
  element that \<open>v[k]\<close> reads replaced by \<open>x\<close>.
\<close>

fun put_back :: "pyval \<Rightarrow> pyval \<Rightarrow> pyval \<Rightarrow> pyval" where
  "put_back (VDict d) (VStr k) x = VDict (AList.update k x d)"
| "put_back (VList l) k x =
     (case key_index k of
        None \<Rightarrow> VList l
      | Some i \<Rightarrow> (case seq_index (length l) i of None \<Rightarrow> VList l | Some j \<Rightarrow> VList (l[j := x])))"
| "put_back v k x = v"

fun update_in :: "pyval \<Rightarrow> pyval list \<Rightarrow> pyval \<Rightarrow> exn + pyval" where
  "update_in v [] x = Inr x"
| "update_in v (k # ks) x =
     ebind (getitem v k) (\<lambda>c. ebind (update_in c ks x) (\<lambda>c'. Inr (put_back v k c')))"

definition load_settings :: "settings_fs \<Rightarrow> string \<Rightarrow> exn + pyval" where
  "load_settings st settings_location =
     (case st settings_location of
        None \<Rightarrow> Inl (OSError ENOENT settings_location)
      | Some v \<Rightarrow> Inr v)"

text \<open>
  Lines 273 and 295, the same in both functions:
  \<^verbatim>\<open>module_settings = temporary_settings['modules'][module] if module in temporary_settings['modules'] else None\<close>
\<close>

definition select_module :: "pyval \<Rightarrow> string \<Rightarrow> exn + pyval" where
  "select_module temporary_settings module =
     ebind (getitem temporary_settings (VStr ''modules'')) (\<lambda>modules.
     ebind (contains module modules) (\<lambda>present.
       if present then getitem modules (VStr module) else Inr VNone))"

text \<open>
  Lines 275-281 and 297-303, the same in both functions:
  \<^verbatim>\<open>
  if module_settings:
      if global_mode: session = module_settings
      else: session = module_settings['sessions'][module_settings['selected']]
  else: session = None
  \<close>
\<close>

definition select_session :: "pyval \<Rightarrow> bool \<Rightarrow> exn + pyval" where
  "select_session module_settings global_mode =
     (if truthy module_settings then
        (if global_mode then Inr module_settings
         else ebind (getitem module_settings (VStr ''sessions'')) (\<lambda>sessions.
              ebind (getitem module_settings (VStr ''selected'')) (\<lambda>selected.
                getitem sessions selected)))
      else Inr VNone)"

definition read_temporary_setting ::
  "settings_fs \<Rightarrow> string \<Rightarrow> string \<Rightarrow> string option \<Rightarrow> string option \<Rightarrow> bool \<Rightarrow> exn + pyval" where
  "read_temporary_setting st settings_location module root_setting setting global_mode =
     ebind (load_settings st settings_location) (\<lambda>temporary_settings.
     ebind (select_module temporary_settings module) (\<lambda>module_settings.
     ebind (select_session module_settings global_mode) (\<lambda>session.
       if truthy session \<and> opt_truthy root_setting then
         (if opt_truthy setting then
            ebind (contains (opt_str root_setting) session) (\<lambda>has_root.
              if has_root then
                ebind (getitem session (VStr (opt_str root_setting))) (\<lambda>root.
                ebind (contains (opt_str setting) root) (\<lambda>has_setting.
                  if has_setting then getitem root (VStr (opt_str setting)) else Inr VNone))
              else Inr VNone)
          else
            ebind (contains (opt_str root_setting) session) (\<lambda>has_root.
              if has_root then getitem session (VStr (opt_str root_setting)) else Inr VNone))
       else if opt_truthy root_setting \<and> \<not> truthy session then
         Inl (Exception ''Module does not use temporary settings'')
       else Inr session)))"

text \<open>The path from the blob to the session that \<open>select_module\<close> and \<open>select_session\<close> followed.\<close>

definition session_path :: "pyval \<Rightarrow> string \<Rightarrow> bool \<Rightarrow> exn + pyval list" where
  "session_path module_settings module global_mode =
     (if global_mode then Inr [VStr ''modules'', VStr module]
      else ebind (getitem module_settings (VStr ''selected'')) (\<lambda>selected.
             Inr [VStr ''modules'', VStr module, VStr ''sessions'', selected]))"

definition set_temporary_setting ::
  "settings_fs \<Rightarrow> string \<Rightarrow> string \<Rightarrow> string \<Rightarrow> string option \<Rightarrow> pyval \<Rightarrow> bool \<Rightarrow> exn + settings_fs" where
  "set_temporary_setting st settings_location module root_setting setting val global_mode =
     ebind (load_settings st settings_location) (\<lambda>temporary_settings.
     ebind (select_module temporary_settings module) (\<lambda>module_settings.
     ebind (select_session module_settings global_mode) (\<lambda>session.
       if \<not> truthy session then Inl (Exception ''Module does not use temporary settings'')
       else
         ebind (if opt_truthy setting then
                  ebind (getitem session (VStr root_setting)) (\<lambda>root.
                  ebind (setitem root (opt_str setting) val) (\<lambda>root'.
                    Inr (put_back session (VStr root_setting) root')))
                else setitem session root_setting val) (\<lambda>session'.
         ebind (session_path module_settings module global_mode) (\<lambda>path.
         ebind (update_in temporary_settings path session') (\<lambda>temporary_settings'.
           Inr (st(settings_location \<mapsto> temporary_settings'))))))))"

section \<open>Paths and UTF-8 (\<^verbatim>\<open>fix_byte_limit\<close>)\<close>

text \<open>
  \<^verbatim>\<open>fix_byte_limit\<close> works on the code points of a path and on the bytes of its UTF-8
  encoding, so here a Python \<^verbatim>\<open>str\<close> is the list of its code points (\<open>ustr\<close>) and a
  \<^verbatim>\<open>bytes\<close> object a list of numbers below 256. \<open>47\<close> is the slash, \<open>92\<close> the backslash,
  \<open>46\<close> the dot. \<open>os.path\<close> is \<^verbatim>\<open>posixpath\<close>; the current directory that
  \<^verbatim>\<open>os.path.relpath\<close> reads from the process is the parameter \<open>cwd\<close>.
\<close>

type_synonym ustr = "nat list"

definition ustr_of :: "string \<Rightarrow> ustr" where
  "ustr_of s = map of_char s"

text \<open>\<^verbatim>\<open>str.replace\<close>, \<^verbatim>\<open>str.split\<close>, \<^verbatim>\<open>str.join\<close>, \<^verbatim>\<open>str.rstrip\<close>, \<^verbatim>\<open>str.rfind\<close> and \<^verbatim>\<open>str.startswith\<close>.\<close>

definition str_replace :: "nat \<Rightarrow> nat \<Rightarrow> ustr \<Rightarrow> ustr" where
  "str_replace old new s = map (\<lambda>c. if c = old then new else c) s"

fun str_split :: "nat \<Rightarrow> ustr \<Rightarrow> ustr list" where
  "str_split sep [] = [[]]"
| "str_split sep (c # cs) =
     (if c = sep then [] # str_split sep cs
      else (case str_split sep cs of [] \<Rightarrow> [[c]] | w # ws \<Rightarrow> (c # w) # ws))"

fun str_join :: "ustr \<Rightarrow> ustr list \<Rightarrow> ustr" where
  "str_join sep [] = []"
| "str_join sep [w] = w"
| "str_join sep (w # ws) = w @ sep @ str_join sep ws"

definition str_rstrip :: "nat \<Rightarrow> ustr \<Rightarrow> ustr" where
  "str_rstrip c s = rev (dropWhile (\<lambda>x. x = c) (rev s))"

definition str_rfind :: "nat \<Rightarrow> ustr \<Rightarrow> int" where
  "str_rfind c s =
     (if c \<in> set s then int (length s) - 1 - int (length (takeWhile (\<lambda>x. x \<noteq> c) (rev s))) else - 1)"

definition startswith :: "ustr \<Rightarrow> ustr \<Rightarrow> bool" where
  "startswith s p = (take (length p) s = p)"

text \<open>\<^verbatim>\<open>posixpath.join\<close>, \<^verbatim>\<open>normpath\<close> (its loop body is \<open>normpath_step\<close>), \<^verbatim>\<open>abspath\<close>, \<^verbatim>\<open>relpath\<close> and \<^verbatim>\<open>split\<close>.\<close>

definition os_path_join :: "ustr \<Rightarrow> ustr \<Rightarrow> ustr" where
  "os_path_join a b =
     (if startswith b [47] then b
      else if a = [] \<or> last a = 47 then a @ b
      else a @ [47] @ b)"

definition normpath_step :: "nat \<Rightarrow> ustr list \<Rightarrow> ustr \<Rightarrow> ustr list" where
  "normpath_step initial_slashes new_comps part =
     (if part = [] \<or> part = [46] then new_comps
      else if part \<noteq> [46, 46] \<or> (initial_slashes = 0 \<and> new_comps = [])
              \<or> (new_comps \<noteq> [] \<and> last new_comps = [46, 46])
        then new_comps @ [part]
      else if new_comps \<noteq> [] then butlast new_comps
      else new_comps)"

definition os_path_normpath :: "ustr \<Rightarrow> ustr" where
  "os_path_normpath path =
     (if path = [] then [46]
      else
        let initial_slashes =
              (if startswith path [47]
               then (if startswith path [47, 47] \<and> \<not> startswith path [47, 47, 47] then 2 else 1)
               else 0);
            comps = foldl (normpath_step initial_slashes) [] (str_split 47 path);
            path' = replicate initial_slashes 47 @ str_join [47] comps
        in if path' = [] then [46] else path')"

definition os_path_abspath :: "ustr \<Rightarrow> ustr \<Rightarrow> ustr" where
  "os_path_abspath cwd path =
     os_path_normpath (if startswith path [47] then path else os_path_join cwd path)"

definition os_path_relpath :: "ustr \<Rightarrow> ustr \<Rightarrow> exn + ustr" where
  "os_path_relpath cwd path =
     (if path = [] then Inl (ValueError ''no path specified'')
      else
        let start_list = filter (\<lambda>x. x \<noteq> []) (str_split 47 (os_path_abspath cwd [46]));
            path_list = filter (\<lambda>x. x \<noteq> []) (str_split 47 (os_path_abspath cwd path));
            i = length (longest_common_prefix start_list path_list);
            rel_list = replicate (length start_list - i) [46, 46] @ drop i path_list
        in if rel_list = [] then Inr [46] else Inr (foldl os_path_join (hd rel_list) (tl rel_list)))"

definition os_path_split :: "ustr \<Rightarrow> ustr \<times> ustr" where
  "os_path_split p =
     (let i = nat (str_rfind 47 p + 1);
          head = take i p;
          tail = drop i p
      in (if head \<noteq> [] \<and> head \<noteq> replicate (length head) 47 then str_rstrip 47 head else head,
          tail))"

text \<open>
  \<^verbatim>\<open>str.encode('utf-8')\<close>: strict, so a lone surrogate raises. A number from \<open>0x110000\<close> on
  is no code point of Python; the encoder of the model rejects it as well.
\<close>

definition utf8_encode_char :: "nat \<Rightarrow> exn + nat list" where
  "utf8_encode_char c =
     (if c < 0x80 then Inr [c]
      else if c < 0x800 then Inr [0xC0 + c div 64, 0x80 + c mod 64]
      else if 0xD800 \<le> c \<and> c \<le> 0xDFFF then Inl (UnicodeEncodeError ''surrogates not allowed'')
      else if c < 0x10000 then
        Inr [0xE0 + c div 4096, 0x80 + c div 64 mod 64, 0x80 + c mod 64]
      else if c < 0x110000 then
        Inr [0xF0 + c div 262144, 0x80 + c div 4096 mod 64, 0x80 + c div 64 mod 64, 0x80 + c mod 64]
      else Inl (ValueError ''not a code point''))"

fun utf8_encode :: "ustr \<Rightarrow> exn + nat list" where
  "utf8_encode [] = Inr []"
| "utf8_encode (c # cs) =
     ebind (utf8_encode_char c) (\<lambda>b. ebind (utf8_encode cs) (\<lambda>bs. Inr (b @ bs)))"

text \<open>
  \<^verbatim>\<open>bytes.decode('utf-8', 'ignore')\<close>, as CPython's decoder reads a sequence: an invalid
  start byte is skipped alone; after an invalid continuation byte the bytes before it are
  skipped and decoding resumes at that byte; a sequence cut off by the end of the input
  is dropped.
\<close>

definition is_continuation :: "nat \<Rightarrow> bool" where
  "is_continuation b = (0x80 \<le> b \<and> b < 0xC0)"

fun utf8_decode_ignore :: "nat list \<Rightarrow> ustr" where
  "utf8_decode_ignore [] = []"
| "utf8_decode_ignore (ch # s) =
     (if ch < 0x80 then ch # utf8_decode_ignore s
      else if ch < 0xC2 then utf8_decode_ignore s
      else if ch < 0xE0 then
        (case s of
           [] \<Rightarrow> []
         | ch2 # s2 \<Rightarrow>
             if \<not> is_continuation ch2 then utf8_decode_ignore s
             else ((ch - 0xC0) * 64 + (ch2 - 0x80)) # utf8_decode_ignore s2)
      else if ch < 0xF0 then
        (case s of
           [] \<Rightarrow> []
         | ch2 # s2 \<Rightarrow>
             if \<not> is_continuation ch2 \<or> (if ch2 < 0xA0 then ch = 0xE0 else ch = 0xED)
             then utf8_decode_ignore s
             else
               (case s2 of
                  [] \<Rightarrow> []
                | ch3 # s3 \<Rightarrow>
                    if \<not> is_continuation ch3 then utf8_decode_ignore s2
                    else ((ch - 0xE0) * 4096 + (ch2 - 0x80) * 64 + (ch3 - 0x80))
                           # utf8_decode_ignore s3))
      else if ch < 0xF5 then
        (case s of
           [] \<Rightarrow> []
         | ch2 # s2 \<Rightarrow>
             if \<not> is_continuation ch2 \<or> (if ch2 < 0x90 then ch = 0xF0 else ch = 0xF4)
             then utf8_decode_ignore s
             else
               (case s2 of
                  [] \<Rightarrow> []
                | ch3 # s3 \<Rightarrow>
                    if \<not> is_continuation ch3 then utf8_decode_ignore s2
                    else
                      (case s3 of
                         [] \<Rightarrow> []
                       | ch4 # s4 \<Rightarrow>
                           if \<not> is_continuation ch4 then utf8_decode_ignore s3
                           else ((ch - 0xF0) * 262144 + (ch2 - 0x80) * 4096 + (ch3 - 0x80) * 64
                                   + (ch4 - 0x80)) # utf8_decode_ignore s4)))
      else utf8_decode_ignore s)"

text \<open>\<^verbatim>\<open>xs[:n]\<close>: a negative \<open>n\<close> counts from the end.\<close>

definition slice_to :: "int \<Rightarrow> 'a list \<Rightarrow> 'a list" where
  "slice_to n xs = (if 0 \<le> n then take (nat n) xs else take (nat (int (length xs) + n)) xs)"

definition fix_byte_limit :: "ustr \<Rightarrow> ustr \<Rightarrow> int \<Rightarrow> exn + ustr" where
  "fix_byte_limit cwd path byte_limit =
     ebind (os_path_relpath cwd path) (\<lambda>rel.
       let rel_path = str_replace 92 47 rel;
           (directory, filename) = os_path_split rel_path
       in ebind (utf8_encode filename) (\<lambda>filename_bytes.
            let fixed_bytes = slice_to byte_limit filename_bytes;
                fixed_filename = utf8_decode_ignore fixed_bytes
            in Inr (directory @ [47] @ fixed_filename)))"

section \<open>The environment: files, processes, network\<close>

text \<open>
  The checksum utilities, the downloader and the tag inspector act on the file system and
  call collaborators that are not part of the repository: mutagen, ffmpeg (as a
  subprocess), the HTTP session, PIL, hashlib. The model makes this explicit.

  \<^item> A \<open>world\<close> is the state the functions change: the regular files with their bytes
    (\<open>fs\<close>; directories are not modelled, so \<^verbatim>\<open>isfile\<close> and \<^verbatim>\<open>exists\<close> agree), the lines
    printed (\<open>stdout\<close>), and the \<open>trace\<close> of every call made to the environment, in order.
  \<^item> An \<open>env\<close> fixes how the collaborators answer: the digest hashlib computes, what
    mutagen reads from and writes to a FLAC file, what ffmpeg produces, the names tempfile
    tries, the HTTP response, and \<open>faults\<close>: which call fails, and with which exception.
    \<open>faults E n ev = Some e\<close> says that the \<open>n\<close>-th call of the run, if it is the call
    \<open>ev\<close>, raises \<open>e\<close> and has no other effect. Every theorem holds for every \<open>env\<close>,
    so for every behaviour of the collaborators.
  \<^item> An \<open>'a io\<close> is a computation: it takes the world and returns the changed world with
    either the exception raised or the value returned.

  \<^verbatim>\<open>time.sleep\<close> and the closing of files have no effect in the model.
\<close>

type_synonym path = string
type_synonym bytes = "nat list"

datatype event =
    IsFile path
  | Exists path
  | OpenRead path
  | Read path nat
  | OpenWrite path
  | Write path
  | Unlink path
  | MkTemp
  | FlacOpen path
  | FlacSave path
  | Run "string list"
  | Get string
  | Recv
  | TerminalSize
  | ImageOpen path
  | ImageSave path
  | FileOpen path

record streaminfo =
  sample_rate :: nat
  channels :: nat
  bits_per_sample :: nat
  md5_signature :: "128 word"

record world =
  fs :: "path \<rightharpoonup> bytes"
  trace :: "event list"
  stdout :: "string list"

record response =
  content_length :: "nat option"
  body_chunks :: "bytes list"

datatype audio_type = FLAC | MP3 | MP4 | OtherType string

record audio =
  format :: audio_type
  tags :: "(string \<times> string list) list"
  stream_md5 :: "128 word"

record env =
  faults :: "nat \<Rightarrow> event \<Rightarrow> exn option"
  md5_digest :: "bytes \<Rightarrow> 128 word"
  flac_parse :: "bytes \<Rightarrow> streaminfo option"
  flac_write :: "bytes \<Rightarrow> streaminfo \<Rightarrow> bytes"
  ffmpeg :: "string list \<Rightarrow> bytes \<Rightarrow> bytes option \<times> bool"
  temp_names :: "string list"
  http_response :: "string \<Rightarrow> response"
  os_name :: string
  image_resize :: "bytes \<Rightarrow> pyval \<Rightarrow> pyval \<Rightarrow> pyval \<Rightarrow> bytes option"
  audio_parse :: "bytes \<Rightarrow> audio option"

type_synonym 'a io = "world \<Rightarrow> (exn + 'a) \<times> world"

text \<open>
  Sequencing (\<open>bind_io\<close>), \<^verbatim>\<open>try: ... except C as e: ...\<close> (\<open>try_except m C handler\<close>) and
  \<^verbatim>\<open>try: ... finally: ...\<close> (\<open>try_finally\<close>: the cleanup runs on both exits, and an
  exception of the cleanup replaces the outcome of the body).
\<close>

definition ret :: "'a \<Rightarrow> 'a io" where
  "ret x = (\<lambda>w. (Inr x, w))"

definition raise :: "exn \<Rightarrow> 'a io" where
  "raise e = (\<lambda>w. (Inl e, w))"

definition bind_io :: "'a io \<Rightarrow> ('a \<Rightarrow> 'b io) \<Rightarrow> 'b io" where
  "bind_io m f = (\<lambda>w. case m w of (Inl e, w') \<Rightarrow> (Inl e, w') | (Inr x, w') \<Rightarrow> f x w')"

definition try_except :: "'a io \<Rightarrow> (exn \<Rightarrow> bool) \<Rightarrow> (exn \<Rightarrow> 'a io) \<Rightarrow> 'a io" where
  "try_except m handles handler =
     (\<lambda>w. case m w of
            (Inl e, w') \<Rightarrow> if handles e then handler e w' else (Inl e, w')
          | (Inr x, w') \<Rightarrow> (Inr x, w'))"

definition try_finally :: "'a io \<Rightarrow> unit io \<Rightarrow> 'a io" where
  "try_finally m cleanup =
     (\<lambda>w. case m w of
            (r, w') \<Rightarrow> (case cleanup w' of
                          (Inl e, w'') \<Rightarrow> (Inl e, w'')
                        | (Inr u, w'') \<Rightarrow> (r, w'')))"

text \<open>A call to the environment: recorded in the trace, then faulted or performed.\<close>

definition env_call :: "env \<Rightarrow> event \<Rightarrow> 'a io \<Rightarrow> 'a io" where
  "env_call E ev act =
     (\<lambda>w. let w1 = w\<lparr>trace := trace w @ [ev]\<rparr>
          in case faults E (length (trace w)) ev of
               Some e \<Rightarrow> (Inl e, w1)
             | None \<Rightarrow> act w1)"

definition print_line :: "string \<Rightarrow> unit io" where
  "print_line s = (\<lambda>w. (Inr (), w\<lparr>stdout := stdout w @ [s]\<rparr>))"

text \<open>\<^verbatim>\<open>f"{n:032x}"\<close> (and \<^verbatim>\<open>hexdigest()\<close> of a 16-byte digest), and \<^verbatim>\<open>str(n)\<close>.\<close>

definition hex_digit :: "nat \<Rightarrow> char" where
  "hex_digit n = ''0123456789abcdef'' ! n"

function hex_digits :: "nat \<Rightarrow> string" where
  "hex_digits n = (if n < 16 then [hex_digit n] else hex_digits (n div 16) @ [hex_digit (n mod 16)])"
  by pat_completeness auto
termination
  by (relation "measure id") auto

definition format_032x :: "nat \<Rightarrow> string" where
  "format_032x n = (let s = hex_digits n in replicate (32 - length s) CHR ''0'' @ s)"

function dec_digits :: "nat \<Rightarrow> string" where
  "dec_digits n = (if n < 10 then [''0123456789'' ! n] else dec_digits (n div 10) @ [''0123456789'' ! (n mod 10)])"
  by pat_completeness auto
termination
  by (relation "measure id") auto

definition hexdigest :: "env \<Rightarrow> bytes \<Rightarrow> string" where
  "hexdigest E hash_md5 = format_032x (unat (md5_digest E hash_md5))"

subsection \<open>Whole-file MD5 (\<^verbatim>\<open>calculate_file_md5\<close>)\<close>

text \<open>
  \<^verbatim>\<open>open(path, 'rb')\<close> gives the file object, modelled by the bytes not yet read;
  \<^verbatim>\<open>f.read(n)\<close> returns the next \<open>n\<close> of them (fewer at the end of the file) and the
  rest. The hash object is the list of the bytes it was updated with: hashlib documents
  that repeated \<^verbatim>\<open>update\<close> calls are equivalent to one call with the concatenation.
  \<open>read_chunks\<close> is the loop \<^verbatim>\<open>for chunk in iter(lambda: f.read(4096), b""): hash_md5.update(chunk)\<close>.
\<close>

definition open_read :: "env \<Rightarrow> path \<Rightarrow> bytes io" where
  "open_read E p =
     env_call E (OpenRead p)
       (\<lambda>w. case fs w p of
               None \<Rightarrow> (Inl (OSError ENOENT (''No such file or directory: '' @ p)), w)
             | Some content \<Rightarrow> (Inr content, w))"

definition file_read :: "env \<Rightarrow> path \<Rightarrow> nat \<Rightarrow> bytes \<Rightarrow> (bytes \<times> bytes) io" where
  "file_read E p n f = env_call E (Read p n) (ret (take n f, drop n f))"

function read_chunks :: "env \<Rightarrow> path \<Rightarrow> bytes \<Rightarrow> bytes \<Rightarrow> bytes io" where
  "read_chunks E p hash_md5 f w =
     (case file_read E p 4096 f w of
        (Inl e, w') \<Rightarrow> (Inl e, w')
      | (Inr (chunk, f'), w') \<Rightarrow>
          if chunk = [] then (Inr hash_md5, w') else read_chunks E p (hash_md5 @ chunk) f' w')"
  by pat_completeness auto
termination
proof (relation "measure (\<lambda>(E, p, h, f, w). length f)")
  show "wf (measure (\<lambda>(E, p, h, f, w). length f))" by simp
next
  fix E p hash_md5 f w x1 w' x2 chunk f'
  assume "(x1, w') = file_read E p 4096 f w" "x1 = Inr x2" "(chunk, f') = x2" "chunk \<noteq> []"
  then have "chunk = take 4096 f \<and> f' = drop 4096 f"
    by (auto simp: file_read_def env_call_def ret_def Let_def split: option.splits)
  with \<open>chunk \<noteq> []\<close> show "((E, p, hash_md5 @ chunk, f', w'), (E, p, hash_md5, f, w))
      \<in> measure (\<lambda>(E, p, h, f, w). length f)"
    by (cases f) auto
qed

definition calculate_file_md5 :: "env \<Rightarrow> path \<Rightarrow> string io" where
  "calculate_file_md5 E file_path =
     try_except
       (bind_io (open_read E file_path) (\<lambda>f.
        bind_io (read_chunks E file_path [] f) (\<lambda>hash_md5.
          ret (hexdigest E hash_md5))))
       is_OSError
       (\<lambda>e. raise (Exception (''Error calculating MD5 hash for '' @ file_path @ '': '' @ exn_str e)))"


subsection \<open>FLAC checksum utilities\<close>

text \<open>
  \<^verbatim>\<open>os.path.exists\<close> and \<^verbatim>\<open>os.path.isfile\<close> return \<^verbatim>\<open>False\<close> when the \<^verbatim>\<open>stat\<close> call
  raises \<^verbatim>\<open>OSError\<close> or \<^verbatim>\<open>ValueError\<close>. \<^verbatim>\<open>FLAC(path)\<close> reads the STREAMINFO block;
  \<^verbatim>\<open>flac_file.save()\<close> writes the file back with the changed block.
  \<^verbatim>\<open>NamedTemporaryFile(delete=False)\<close> creates an empty file under the first candidate
  name that does not exist. \<^verbatim>\<open>subprocess.run([ffmpeg ...], check=True)\<close> writes what ffmpeg
  produces from the input file to the output path and raises when it exits non-zero.
\<close>

fun is_ValueError :: "exn \<Rightarrow> bool" where
  "is_ValueError (ValueError m) = True"
| "is_ValueError (UnicodeEncodeError m) = True"
| "is_ValueError (UnicodeDecodeError m) = True"
| "is_ValueError _ = False"

definition os_path_exists :: "env \<Rightarrow> path \<Rightarrow> bool io" where
  "os_path_exists E p =
     try_except (env_call E (Exists p) (\<lambda>w. (Inr (fs w p \<noteq> None), w)))
       (\<lambda>e. is_OSError e \<or> is_ValueError e)
       (\<lambda>e. ret False)"

definition os_path_isfile :: "env \<Rightarrow> path \<Rightarrow> bool io" where
  "os_path_isfile E p =
     try_except (env_call E (IsFile p) (\<lambda>w. (Inr (fs w p \<noteq> None), w)))
       (\<lambda>e. is_OSError e \<or> is_ValueError e)
       (\<lambda>e. ret False)"

definition os_unlink :: "env \<Rightarrow> path \<Rightarrow> unit io" where
  "os_unlink E p =
     env_call E (Unlink p)
       (\<lambda>w. case fs w p of
               None \<Rightarrow> (Inl (OSError ENOENT (''No such file or directory: '' @ p)), w)
             | Some content \<Rightarrow> (Inr (), w\<lparr>fs := (fs w)(p := None)\<rparr>))"

definition mutagen_FLAC :: "env \<Rightarrow> path \<Rightarrow> streaminfo io" where
  "mutagen_FLAC E p =
     env_call E (FlacOpen p)
       (\<lambda>w. case fs w p of
               None \<Rightarrow> (Inl (LibraryError (''No such file or directory: '' @ p)), w)
             | Some content \<Rightarrow>
                (case flac_parse E content of
                   None \<Rightarrow> (Inl (LibraryError (p @ '' is not a valid FLAC file'')), w)
                 | Some info \<Rightarrow> (Inr info, w)))"

definition flac_save :: "env \<Rightarrow> path \<Rightarrow> streaminfo \<Rightarrow> unit io" where
  "flac_save E p info =
     env_call E (FlacSave p)
       (\<lambda>w. case fs w p of
               None \<Rightarrow> (Inl (LibraryError (''No such file or directory: '' @ p)), w)
             | Some content \<Rightarrow> (Inr (), w\<lparr>fs := (fs w)(p \<mapsto> flac_write E content info)\<rparr>))"

definition named_temporary_file :: "env \<Rightarrow> string \<Rightarrow> path io" where
  "named_temporary_file E sfx =
     env_call E MkTemp
       (\<lambda>w. case find (\<lambda>name. fs w (name @ sfx) = None) (temp_names E) of
               None \<Rightarrow> (Inl (OSError EEXIST ''No usable temporary file name found''), w)
             | Some name \<Rightarrow> (Inr (name @ sfx), w\<lparr>fs := (fs w)(name @ sfx \<mapsto> [])\<rparr>))"

definition subprocess_run :: "env \<Rightarrow> string list \<Rightarrow> path \<Rightarrow> path \<Rightarrow> unit io" where
  "subprocess_run E args input output =
     env_call E (Run args)
       (\<lambda>w. case fs w input of
               None \<Rightarrow> (Inl (LibraryError ''CalledProcessError''), w)
             | Some content \<Rightarrow>
                (case ffmpeg E args content of
                   (out, ok) \<Rightarrow>
                     let w' = (case out of None \<Rightarrow> w | Some b \<Rightarrow> w\<lparr>fs := (fs w)(output \<mapsto> b)\<rparr>)
                     in if ok then (Inr (), w') else (Inl (LibraryError ''CalledProcessError''), w')))"

text \<open>
  The cleanup loop of lines 83-89 and 143-149, with the number of rounds left:
  \<^verbatim>\<open>
  for i in range(3):
      try:
          if os.path.exists(temp_path): os.unlink(temp_path)
          break
      except PermissionError: time.sleep(0.1)
  \<close>
\<close>

fun cleanup_temp :: "env \<Rightarrow> path \<Rightarrow> nat \<Rightarrow> unit io" where
  "cleanup_temp E temp_path 0 = ret ()"
| "cleanup_temp E temp_path (Suc n) =
     try_except
       (bind_io (os_path_exists E temp_path) (\<lambda>present.
          if present then os_unlink E temp_path else ret ()))
       is_PermissionError
       (\<lambda>e. cleanup_temp E temp_path n)"

text \<open>
  \<open>transcode_and_hash\<close> is the inner \<^verbatim>\<open>try\<close> block of \<^verbatim>\<open>calculate_unencoded_md5\<close>
  (lines 46-79): choose the sample format, run ffmpeg into the temporary file, hash that
  file.
\<close>

definition transcode_and_hash :: "env \<Rightarrow> path \<Rightarrow> streaminfo \<Rightarrow> path \<Rightarrow> string io" where
  "transcode_and_hash E file_path flac_file temp_path =
     bind_io
       (if bits_per_sample flac_file = 16 then ret (''s16le'', ''pcm_s16le'')
        else if bits_per_sample flac_file = 24 then ret (''s24le'', ''pcm_s24le'')
        else if bits_per_sample flac_file = 32 then ret (''s32le'', ''pcm_s32le'')
        else raise (Exception (''Unsupported bit depth: ''
                                @ dec_digits (bits_per_sample flac_file))))
       (\<lambda>(ffmpeg_format, codec).
     bind_io (subprocess_run E
                [''ffmpeg'', ''-i'', file_path, ''-f'', ffmpeg_format, ''-acodec'', codec,
                 ''-ar'', dec_digits (sample_rate flac_file),
                 ''-ac'', dec_digits (channels flac_file), ''-y'', temp_path]
                file_path temp_path) (\<lambda>result.
     bind_io (open_read E temp_path) (\<lambda>f.
     bind_io (read_chunks E temp_path [] f) (\<lambda>hash_md5.
       ret (hexdigest E hash_md5)))))"

definition calculate_unencoded_md5 :: "env \<Rightarrow> path \<Rightarrow> string io" where
  "calculate_unencoded_md5 E file_path =
     try_except
       (bind_io (mutagen_FLAC E file_path) (\<lambda>flac_file.
        bind_io (named_temporary_file E ''.raw'') (\<lambda>temp_path.
          try_finally
            (transcode_and_hash E file_path flac_file temp_path)
            (cleanup_temp E temp_path 3))))
       is_Exception
       (\<lambda>e. raise (Exception (''Could not calculate proper unencoded MD5 for '' @ file_path
                                @ '': '' @ exn_str e)))"

text \<open>
  \<^verbatim>\<open>bytes.fromhex\<close> (ASCII whitespace between the bytes is skipped) and
  \<^verbatim>\<open>int.from_bytes(b, byteorder='big')\<close>.
\<close>

definition hex_val :: "char \<Rightarrow> nat option" where
  "hex_val c =
     (let n = of_char c :: nat
      in if 48 \<le> n \<and> n \<le> 57 then Some (n - 48)
         else if 97 \<le> n \<and> n \<le> 102 then Some (n - 87)
         else if 65 \<le> n \<and> n \<le> 70 then Some (n - 55)
         else None)"

definition is_space :: "char \<Rightarrow> bool" where
  "is_space c = (of_char c \<in> {9, 10, 11, 12, 13, 32 :: nat})"

fun bytes_fromhex :: "string \<Rightarrow> exn + bytes" where
  "bytes_fromhex [] = Inr []"
| "bytes_fromhex [c] =
     (if is_space c then Inr []
      else Inl (ValueError ''non-hexadecimal number found in fromhex() arg''))"
| "bytes_fromhex (c # d # cs) =
     (if is_space c then bytes_fromhex (d # cs)
      else (case (hex_val c, hex_val d) of
              (Some a, Some b) \<Rightarrow> ebind (bytes_fromhex cs) (\<lambda>rest. Inr ((a * 16 + b) # rest))
            | _ \<Rightarrow> Inl (ValueError ''non-hexadecimal number found in fromhex() arg'')))"

definition int_from_bytes_big :: "bytes \<Rightarrow> nat" where
  "int_from_bytes_big bs = foldl (\<lambda>acc b. acc * 256 + b) 0 bs"

definition set_flac_md5_signature :: "env \<Rightarrow> path \<Rightarrow> string \<Rightarrow> bool io" where
  "set_flac_md5_signature E file_path md5_hash =
     try_except
       (bind_io (mutagen_FLAC E file_path) (\<lambda>flac_file.
          if length md5_hash = 32 then
            (case bytes_fromhex md5_hash of
               Inl e \<Rightarrow> raise e
             | Inr md5_bytes \<Rightarrow>
                 bind_io (flac_save E file_path
                            (flac_file\<lparr>md5_signature := of_nat (int_from_bytes_big md5_bytes)\<rparr>))
                   (\<lambda>saved. ret True))
          else raise (ValueError (''Invalid MD5 hash length: '' @ dec_digits (length md5_hash)
                                   @ '' (expected 32)''))))
       is_Exception
       (\<lambda>e. bind_io (print_line (''Warning: Could not set FLAC MD5 signature for '' @ file_path
                                   @ '': '' @ exn_str e))
              (\<lambda>printed. ret False))"

definition fix_flac_md5_signature :: "env \<Rightarrow> path \<Rightarrow> string io" where
  "fix_flac_md5_signature E file_path =
     try_except
       (bind_io (mutagen_FLAC E file_path) (\<lambda>original_flac.
          if md5_signature original_flac \<noteq> 0 then
            ret (format_032x (unat (md5_signature original_flac)))
          else
            bind_io (named_temporary_file E ''.flac'') (\<lambda>temp_path.
              try_finally
                (bind_io (subprocess_run E
                            [''ffmpeg'', ''-i'', file_path, ''-c:a'', ''flac'',
                             ''-compression_level'', ''5'', ''-y'', temp_path]
                            file_path temp_path) (\<lambda>result.
                 bind_io (mutagen_FLAC E temp_path) (\<lambda>temp_flac.
                   if md5_signature temp_flac \<noteq> 0 then
                     (let md5_hex = format_032x (unat (md5_signature temp_flac))
                      in bind_io (set_flac_md5_signature E file_path md5_hex) (\<lambda>ok.
                           if ok then ret md5_hex
                           else raise (Exception ''Could not set MD5 signature in original file'')))
                   else raise (Exception ''Re-encoded FLAC also has no MD5 signature''))))
                (cleanup_temp E temp_path 3))))
       is_Exception
       (\<lambda>e. raise (Exception (''Could not fix FLAC MD5 signature for '' @ file_path
                                @ '': '' @ exn_str e)))"


subsection \<open>Downloader (\<^verbatim>\<open>download_file\<close>)\<close>

text \<open>
  The response of \<^verbatim>\<open>r_session.get(url, stream=True)\<close> is its \<^verbatim>\<open>content-length\<close> header,
  if any, and the chunks that \<^verbatim>\<open>iter_content(chunk_size=1024)\<close> delivers; fetching a
  chunk is the call \<open>Recv\<close>. The progress bar only draws, so what is left of lines
  220-227 is the call \<^verbatim>\<open>os.get_terminal_size()\<close>, the bare \<^verbatim>\<open>raise\<close> outside of Windows
  and the bare \<^verbatim>\<open>except:\<close> around both. Opening the image and saving the resized
  image are the calls \<open>ImageOpen\<close> and \<open>ImageSave\<close>. \<open>download_body\<close> is the \<^verbatim>\<open>try\<close> block
  of lines 218-248, \<open>download_cleanup\<close> the handler of lines 250-253.
\<close>

definition lift :: "exn + 'a \<Rightarrow> 'a io" where
  "lift m = (\<lambda>w. (m, w))"

definition session_get :: "env \<Rightarrow> string \<Rightarrow> response io" where
  "session_get E url = env_call E (Get url) (ret (http_response E url))"

definition open_write :: "env \<Rightarrow> path \<Rightarrow> unit io" where
  "open_write E p = env_call E (OpenWrite p) (\<lambda>w. (Inr (), w\<lparr>fs := (fs w)(p \<mapsto> [])\<rparr>))"

definition file_write :: "env \<Rightarrow> path \<Rightarrow> bytes \<Rightarrow> unit io" where
  "file_write E p chunk =
     env_call E (Write p)
       (\<lambda>w. (Inr (), w\<lparr>fs := (fs w)(p \<mapsto> (case fs w p of None \<Rightarrow> [] | Some old \<Rightarrow> old) @ chunk)\<rparr>))"

definition make_progress_bar :: "env \<Rightarrow> unit io" where
  "make_progress_bar E =
     try_except
       (bind_io (env_call E TerminalSize (ret ())) (\<lambda>columns.
          if os_name E = ''nt'' then ret ()
          else raise (RuntimeError ''No active exception to reraise'')))
       (\<lambda>e. True)
       (\<lambda>e. ret ())"

fun write_chunks :: "env \<Rightarrow> path \<Rightarrow> bytes list \<Rightarrow> unit io" where
  "write_chunks E p [] = ret ()"
| "write_chunks E p (chunk # rest) =
     bind_io (env_call E Recv (ret ())) (\<lambda>received.
     bind_io (if chunk \<noteq> [] then file_write E p chunk else ret ()) (\<lambda>written.
       write_chunks E p rest))"

fun dict_get :: "pyval \<Rightarrow> string \<Rightarrow> pyval \<Rightarrow> exn + pyval" where
  "dict_get (VDict d) k dflt = Inr (case map_of d k of None \<Rightarrow> dflt | Some v \<Rightarrow> v)"
| "dict_get v k dflt = Inl (AttributeError ''object has no attribute get'')"

definition image_open :: "env \<Rightarrow> path \<Rightarrow> bytes io" where
  "image_open E p =
     env_call E (ImageOpen p)
       (\<lambda>w. case fs w p of
               None \<Rightarrow> (Inl (OSError ENOENT (''No such file or directory: '' @ p)), w)
             | Some content \<Rightarrow> (Inr content, w))"

definition image_save :: "env \<Rightarrow> path \<Rightarrow> bytes \<Rightarrow> pyval \<Rightarrow> pyval \<Rightarrow> pyval \<Rightarrow> unit io" where
  "image_save E p im resolution fmt quality =
     env_call E (ImageSave p)
       (\<lambda>w. case image_resize E im resolution fmt quality of
               None \<Rightarrow> (Inl (LibraryError ''cannot resize or save the image''), w)
             | Some out \<Rightarrow> (Inr (), w\<lparr>fs := (fs w)(p \<mapsto> out)\<rparr>))"

definition resize_artwork :: "env \<Rightarrow> path \<Rightarrow> pyval \<Rightarrow> unit io" where
  "resize_artwork E file_location artwork_settings =
     bind_io (lift (dict_get artwork_settings ''resolution'' (VInt 1400))) (\<lambda>new_resolution.
     bind_io (lift (dict_get artwork_settings ''format'' (VStr ''jpeg''))) (\<lambda>fmt.
     bind_io (lift (dict_get artwork_settings ''compression'' (VStr ''low''))) (\<lambda>compression.
       let new_format = (if fmt = VStr ''jpg'' then VStr ''jpeg'' else fmt);
           quality = (if compression = VStr ''low'' then VInt 90
                      else if compression = VStr ''high'' then VInt 70
                      else compression);
           new_compression = (if new_format = VStr ''png'' then VNone else quality)
       in bind_io (image_open E file_location) (\<lambda>im.
            image_save E file_location im new_resolution new_format new_compression))))"

definition download_body :: "env \<Rightarrow> response \<Rightarrow> path \<Rightarrow> bool \<Rightarrow> pyval \<Rightarrow> unit io" where
  "download_body E r file_location enable_progress_bar artwork_settings =
     bind_io (open_write E file_location) (\<lambda>f.
     bind_io (if enable_progress_bar
                 \<and> (case content_length r of None \<Rightarrow> False | Some total_bytes \<Rightarrow> total_bytes \<noteq> 0)
              then bind_io (make_progress_bar E) (\<lambda>bar.
                     write_chunks E file_location (body_chunks r))
              else write_chunks E file_location (body_chunks r)) (\<lambda>closed.
       if truthy artwork_settings then
         bind_io (lift (dict_get artwork_settings ''should_resize'' (VBool False))) (\<lambda>should_resize.
           if truthy should_resize then resize_artwork E file_location artwork_settings
           else ret ())
       else ret ()))"

definition os_remove :: "env \<Rightarrow> path \<Rightarrow> unit io" where
  "os_remove E p = os_unlink E p"

fun oserror_errno :: "exn \<Rightarrow> errno option" where
  "oserror_errno (OSError n m) = Some n"
| "oserror_errno _ = None"

definition silentremove :: "env \<Rightarrow> path \<Rightarrow> unit io" where
  "silentremove E filename =
     try_except (os_remove E filename) is_OSError
       (\<lambda>e. if oserror_errno e \<noteq> Some ENOENT then raise e else ret ())"

definition download_cleanup :: "env \<Rightarrow> path \<Rightarrow> unit io" where
  "download_cleanup E file_location =
     bind_io (os_path_isfile E file_location) (\<lambda>partial.
     bind_io (if partial then
                bind_io (print_line ([CHR 0x09] @ ''Deleting partially downloaded file ''
                                     @ [CHR 0x22] @ file_location @ [CHR 0x22])) (\<lambda>printed.
                  silentremove E file_location)
              else ret ()) (\<lambda>cleaned.
       raise KeyboardInterrupt))"

definition download_file ::
  "env \<Rightarrow> string \<Rightarrow> path \<Rightarrow> (string \<times> string) list \<Rightarrow> bool \<Rightarrow> nat \<Rightarrow> pyval \<Rightarrow> unit io" where
  "download_file E url file_location headers enable_progress_bar indent_level artwork_settings =
     bind_io (os_path_isfile E file_location) (\<lambda>present.
       if present then ret ()
       else
         bind_io (session_get E url) (\<lambda>r.
           try_except
             (download_body E r file_location enable_progress_bar artwork_settings)
             is_KeyboardInterrupt
             (\<lambda>e. download_cleanup E file_location)))"

subsection \<open>Tag inspector (\<^verbatim>\<open>check_md5_tag\<close>)\<close>















text \<open>Kinds of calls, to count them in a trace.\<close>

fun is_Unlink :: "event \<Rightarrow> bool" where
  "is_Unlink (Unlink p) = True"
| "is_Unlink ev = False"

fun is_FlacSave :: "event \<Rightarrow> bool" where
  "is_FlacSave (FlacSave p) = True"
| "is_FlacSave ev = False"

text \<open>
  \<open>no_fault_in E w w'\<close>: no call made between the worlds \<open>w\<close> and \<open>w'\<close> of a run failed.
\<close>

definition no_fault_in :: "env \<Rightarrow> world \<Rightarrow> world \<Rightarrow> bool" where
  "no_fault_in E w w' =
     (\<forall>n. length (trace w) \<le> n \<and> n < length (trace w') \<longrightarrow> faults E n (trace w' ! n) = None)"

section \<open>Example inputs\<close>

text \<open>
  A settings file in which module \<open>m\<close> has the selected session \<open>default\<close>, holding
  the mappings \<open>bearer\<close> and (under the empty name) one more; module \<open>n\<close> has no entry.
\<close>

definition example_session :: pyval where
  "example_session = VDict [(''bearer'', VDict [(''token'', VStr ''old'')]), ([], VDict [])]"

definition example_module :: pyval where
  "example_module =
     VDict [(''selected'', VStr ''default''), (''sessions'', VDict [(''default'', example_session)])]"

definition example_settings :: pyval where
  "example_settings = VDict [(''modules'', VDict [(''m'', example_module)])]"

definition example_store :: settings_fs where
  "example_store = [''settings.pickle'' \<mapsto> example_settings]"

text \<open>The working directory of the path examples.\<close>

definition example_cwd :: ustr where
  "example_cwd = ustr_of ''/home/user''"

text \<open>
  A toy environment. An audio file begins with \<open>102\<close> (FLAC), \<open>109\<close> (MP3, with an MD5
  frame) or \<open>52\<close> (MP4, whose MD5 atom holds the four bytes \<open>d4 1d 8c d9\<close>, a binary
  digest and no text); any other file is of no known format. A FLAC file is the byte \<open>102\<close>, then the sample rate, the channel
  count, the bit depth and the checksum in one byte each, then the samples; ffmpeg's raw
  output is the samples; the digest is the sum of the bytes. \<open>example_env\<close> takes the
  fault schedule.
\<close>

definition example_flac_parse :: "bytes \<Rightarrow> streaminfo option" where
  "example_flac_parse content =
     (case content of
        magic # rate # chans # bits # sig # samples \<Rightarrow>
          if magic = 102 then
            Some \<lparr>sample_rate = rate, channels = chans, bits_per_sample = bits,
                  md5_signature = of_nat sig\<rparr>
          else None
      | _ \<Rightarrow> None)"

definition example_flac_write :: "bytes \<Rightarrow> streaminfo \<Rightarrow> bytes" where
  "example_flac_write content info =
     [102, sample_rate info, channels info, bits_per_sample info, unat (md5_signature info) mod 256]
       @ drop 5 content"

definition example_audio_parse :: "bytes \<Rightarrow> audio option" where
  "example_audio_parse content =
     (case content of
        [] \<Rightarrow> None
      | magic # rest \<Rightarrow>
          if magic = 102 then
            Some \<lparr>format = FLAC, tags = [(''title'', [''Song''])],
                  stream_md5 = of_nat (content ! 4)\<rparr>
          else if magic = 109 then
            Some \<lparr>format = MP3, tags = [(''TXXX:MD5'', [''d41d8cd9''])], stream_md5 = 0\<rparr>
          else if magic = 52 then
            Some \<lparr>format = MP4,
                  tags = [(''----:com.apple.itunes:MD5'', [[CHR 0xD4, CHR 0x1D, CHR 0x8C, CHR 0xD9]])],
                  stream_md5 = 0\<rparr>
          else None)"

definition example_env :: "(nat \<Rightarrow> event \<Rightarrow> exn option) \<Rightarrow> env" where
  "example_env schedule =
     \<lparr>faults = schedule,
      md5_digest = (\<lambda>content. of_nat (sum_list content)),
      flac_parse = example_flac_parse,
      flac_write = example_flac_write,
      ffmpeg = (\<lambda>args content. (Some (drop 5 content), True)),
      temp_names = [''/tmp/tmp0'', ''/tmp/tmp1''],
      http_response = (\<lambda>url. \<lparr>content_length = Some 5, body_chunks = [[1, 2, 3], [], [4, 5]]\<rparr>),
      os_name = ''posix'',
      image_resize = (\<lambda>im resolution fmt quality. Some im),
      audio_parse = example_audio_parse\<rparr>"

definition no_faults :: "nat \<Rightarrow> event \<Rightarrow> exn option" where
  "no_faults n ev = None"


text \<open>
  A file lock that is released before the \<open>k\<close>-th call of the run: until then every
  \<^verbatim>\<open>os.unlink\<close> fails with \<^verbatim>\<open>PermissionError\<close>.
\<close>

definition locked_until :: "nat \<Rightarrow> nat \<Rightarrow> event \<Rightarrow> exn option" where
  "locked_until k n ev =
     (if is_Unlink ev \<and> n < k then Some (OSError EACCES ''Permission denied'') else None)"

definition example_world :: world where
  "example_world =
     \<lparr>fs = [''a.bin'' \<mapsto> [1, 2, 3],
             ''song.flac'' \<mapsto> [102, 44, 2, 16, 7, 10, 20, 30],
             ''unset.flac'' \<mapsto> [102, 44, 2, 8, 0, 10, 20, 30],
             ''notes.txt'' \<mapsto> [110, 111],
             ''track.m4a'' \<mapsto> [52, 0, 0]],
      trace = [], stdout = []\<rparr>"

section \<open>Properties of the settings store\<close>

lemma ebind_Inr_iff: "ebind m f = Inr y \<longleftrightarrow> (\<exists>x. m = Inr x \<and> f x = Inr y)"
  by (cases m) (simp_all add: ebind_def)

lemma ebind_Inr [simp]: "ebind (Inr x) f = f x"
  by (simp add: ebind_def)

lemma ebind_Inl [simp]: "ebind (Inl e) f = Inl e"
  by (simp add: ebind_def)

lemma getitem_str_Inr:
  "getitem v (VStr k) = Inr c \<Longrightarrow> \<exists>d. v = VDict d \<and> map_of d k = Some c"
  by (cases v) (auto split: option.splits)

lemma getitem_put_back:
  "getitem v k = Inr c \<Longrightarrow> (\<forall>s. v \<noteq> VStr s) \<Longrightarrow> getitem (put_back v k x) k = Inr x"
proof (cases v)
  case (VDict d)
  assume "getitem v k = Inr c"
  with VDict show ?thesis
    by (cases k) (auto simp: update_conv' split: option.splits)
next
  case (VList l)
  assume "getitem v k = Inr c"
  with VList show ?thesis
    by (auto simp: seq_index_def Let_def split: option.splits if_splits)
qed auto

lemma getitem_put_back_other:
  "k \<noteq> k' \<Longrightarrow> getitem (put_back (VDict d) (VStr k) x) (VStr k') = getitem (VDict d) (VStr k')"
  by (simp add: update_conv')

lemma contains_put_back: "contains k (put_back (VDict d) (VStr k) x) = Inr True"
  by (simp add: update_conv')

lemma truthy_put_back: "truthy (put_back (VDict d) (VStr k) x)"
  by (cases d) auto

text \<open>
  C4 (amended). Let the settings file at \<open>loc\<close> load, let module \<open>M\<close> have a selected
  session (the lookups of lines 295-301 succeed with \<open>global_mode = False\<close>) and let that
  session hold a mapping under the name \<open>R\<close>, where \<open>R\<close> is not the empty string. Then
  \<^verbatim>\<open>set_temporary_setting(loc, M, R, K, V)\<close> succeeds, and a following
  \<^verbatim>\<open>read_temporary_setting(loc, M, R, K)\<close> returns exactly \<open>V\<close>, for every name \<open>K\<close>
  (the empty one included) and every value \<open>V\<close>.
\<close>

theorem settings_round_trip:
  assumes load: "load_settings st loc = Inr ts"
      and modl: "select_module ts M = Inr ms"
      and sess: "select_session ms False = Inr session"
      and root: "getitem session (VStr R) = Inr (VDict d)"
      and R: "R \<noteq> []"
  shows "\<exists>st'. set_temporary_setting st loc M R (Some K) V False = Inr st'
           \<and> read_temporary_setting st' loc M (Some R) (Some K) False = Inr V"
proof -
  from root obtain sd where session: "session = VDict sd" and sdR: "map_of sd R = Some (VDict d)"
    by (auto dest: getitem_str_Inr)
  from modl obtain modules where mods: "getitem ts (VStr ''modules'') = Inr modules"
    and pres: "contains M modules = Inr True" and ms: "getitem modules (VStr M) = Inr ms"
    using sess session
    by (auto simp: select_module_def select_session_def ebind_Inr_iff split: if_splits)
  from mods obtain tsd where ts: "ts = VDict tsd" by (auto dest: getitem_str_Inr)
  from ms obtain md where md: "modules = VDict md" by (auto dest: getitem_str_Inr)
  from sess session obtain sessions selected where
    tr: "truthy ms" and ss: "getitem ms (VStr ''sessions'') = Inr sessions"
    and sel: "getitem ms (VStr ''selected'') = Inr selected"
    and cur: "getitem sessions selected = Inr session"
    by (auto simp: select_session_def ebind_Inr_iff split: if_splits)
  from ss obtain msd where msd: "ms = VDict msd" by (auto dest: getitem_str_Inr)
  have nostr: "\<forall>s. sessions \<noteq> VStr s"
    using cur session by (auto simp: split: option.splits)
  define session' where "session' =
    (if K \<noteq> [] then VDict (AList.update R (VDict (AList.update K V d)) sd)
     else VDict (AList.update R V sd))"
  define sessions' where "sessions' = put_back sessions selected session'"
  define ms' where "ms' = put_back ms (VStr ''sessions'') sessions'"
  define modules' where "modules' = put_back modules (VStr M) ms'"
  define ts' where "ts' = put_back ts (VStr ''modules'') modules'"
  have set: "set_temporary_setting st loc M R (Some K) V False = Inr (st(loc \<mapsto> ts'))"
    using load modl sess sdR mods ms ss sel cur
    by (auto simp add: set_temporary_setting_def session session_path_def session'_def
        sessions'_def ms'_def modules'_def ts'_def)
  have g1: "getitem ts' (VStr ''modules'') = Inr modules'"
    unfolding ts'_def using mods ts by (intro getitem_put_back) auto
  have g2: "getitem modules' (VStr M) = Inr ms'"
    unfolding modules'_def using ms md by (intro getitem_put_back) auto
  have g3: "getitem ms' (VStr ''sessions'') = Inr sessions'"
    unfolding ms'_def using ss msd by (intro getitem_put_back) auto
  have g4: "getitem ms' (VStr ''selected'') = Inr selected"
    using sel unfolding ms'_def msd by (subst getitem_put_back_other) auto
  have g5: "getitem sessions' selected = Inr session'"
    unfolding sessions'_def using cur nostr by (intro getitem_put_back) auto
  have c1: "contains M modules' = Inr True"
    unfolding modules'_def md by (rule contains_put_back)
  have t1: "truthy ms'"
    unfolding ms'_def msd by (rule truthy_put_back)
  have sm: "select_module ts' M = Inr ms'"
    unfolding select_module_def by (simp add: g1 g2 c1)
  have sl: "select_session ms' False = Inr session'"
    unfolding select_session_def by (simp add: g3 g4 g5 t1)
  have "read_temporary_setting (st(loc \<mapsto> ts')) loc M (Some R) (Some K) False = Inr V"
    unfolding read_temporary_setting_def using sm sl R
    by (simp add: load_settings_def session'_def update_conv')
  with set show ?thesis by blast
qed

lemma example_load: "load_settings example_store ''settings.pickle'' = Inr example_settings"
  by (simp add: load_settings_def example_store_def)

lemma example_select_module: "select_module example_settings ''m'' = Inr example_module"
  by (simp add: select_module_def example_settings_def)

lemma example_select_session: "select_session example_module False = Inr example_session"
  by (simp add: select_session_def example_module_def)

theorem settings_round_trip_witness:
  "getitem example_session (VStr ''bearer'') = Inr (VDict [(''token'', VStr ''old'')])
   \<and> (\<exists>st'. set_temporary_setting example_store ''settings.pickle'' ''m'' ''bearer''
                (Some ''token'') (VStr ''new'') False = Inr st'
            \<and> read_temporary_setting st' ''settings.pickle'' ''m'' (Some ''bearer'')
                (Some ''token'') False = Inr (VStr ''new''))"
proof -
  have root: "getitem example_session (VStr ''bearer'') = Inr (VDict [(''token'', VStr ''old'')])"
    by (simp add: example_session_def)
  have ne: "''bearer'' \<noteq> []" by simp
  from settings_round_trip [OF example_load example_select_module example_select_session root ne]
  show ?thesis using root by blast
qed

text \<open>
  C4 as stated fails for the empty name: \<^verbatim>\<open>if session and root_setting\<close> (line 283) takes
  an empty \<^verbatim>\<open>root_setting\<close> for a missing one, so the read returns the whole session
  and not the value that was written.
\<close>

theorem settings_round_trip_counterexample:
  "getitem example_session (VStr []) = Inr (VDict [])
   \<and> (\<exists>st'. set_temporary_setting example_store ''settings.pickle'' ''m'' []
                (Some ''token'') (VStr ''new'') False = Inr st'
            \<and> read_temporary_setting st' ''settings.pickle'' ''m'' (Some [])
                (Some ''token'') False
               = Inr (VDict [(''bearer'', VDict [(''token'', VStr ''old'')]),
                             ([], VDict [(''token'', VStr ''new'')])])
            \<and> read_temporary_setting st' ''settings.pickle'' ''m'' (Some [])
                (Some ''token'') False \<noteq> Inr (VStr ''new''))"
  by (simp add: set_temporary_setting_def read_temporary_setting_def load_settings_def
      select_module_def select_session_def session_path_def
      example_store_def example_settings_def example_module_def example_session_def)

text \<open>
  C8 (amended). When the module has no session state (the session that lines 273-281
  compute is \<^verbatim>\<open>None\<close> or empty: the module is absent, its entry is empty, or its
  selected session is empty), \<^verbatim>\<open>set_temporary_setting\<close> raises; \<^verbatim>\<open>read_temporary_setting\<close>
  raises when it is called with a non-empty \<^verbatim>\<open>root_setting\<close>, and called without one
  it returns that session (line 291).
\<close>

theorem no_session_state:
  assumes load: "load_settings st loc = Inr ts"
      and modl: "select_module ts M = Inr ms"
      and sess: "select_session ms g = Inr session"
      and none: "\<not> truthy session"
  shows "set_temporary_setting st loc M R K V g
           = Inl (Exception ''Module does not use temporary settings'')
       \<and> (opt_truthy R' \<longrightarrow> read_temporary_setting st loc M R' K g
           = Inl (Exception ''Module does not use temporary settings''))
       \<and> (\<not> opt_truthy R' \<longrightarrow> read_temporary_setting st loc M R' K g = Inr session)"
  using assms by (simp add: set_temporary_setting_def read_temporary_setting_def)

theorem no_session_state_witness:
  "select_module example_settings ''n'' = Inr VNone
   \<and> select_session VNone False = Inr VNone
   \<and> set_temporary_setting example_store ''settings.pickle'' ''n'' ''bearer'' (Some ''token'')
        (VStr ''new'') False = Inl (Exception ''Module does not use temporary settings'')
   \<and> read_temporary_setting example_store ''settings.pickle'' ''n'' (Some ''bearer'')
        (Some ''token'') False = Inl (Exception ''Module does not use temporary settings'')"
proof -
  have m: "select_module example_settings ''n'' = Inr VNone"
    by (simp add: select_module_def example_settings_def)
  have s: "select_session VNone False = Inr VNone"
    by (simp add: select_session_def)
  have t: "\<not> truthy VNone" by simp
  from no_session_state [OF example_load m s t, of "''bearer''" "Some ''token''" "VStr ''new''"
      "Some ''bearer''"]
  show ?thesis using m s by simp
qed

text \<open>
  C8 as stated fails for the read without a \<^verbatim>\<open>root_setting\<close>: for a module that is
  absent it returns \<^verbatim>\<open>None\<close> and raises nothing.
\<close>

theorem no_session_state_counterexample:
  "select_module example_settings ''n'' = Inr VNone
   \<and> read_temporary_setting example_store ''settings.pickle'' ''n'' None None False = Inr VNone"
  by (simp add: read_temporary_setting_def load_settings_def select_module_def
      select_session_def example_store_def example_settings_def)

section \<open>Properties of \<^verbatim>\<open>fix_byte_limit\<close>\<close>

lemma dec1:
  assumes "c < 128"
  shows "utf8_decode_ignore (c # rest) = c # utf8_decode_ignore rest"
  using assms by simp

lemma dec2:
  assumes "2 \<le> q" "q < 32" "r < 64"
  shows "utf8_decode_ignore ((192 + q) # (128 + r) # rest) = (q * 64 + r) # utf8_decode_ignore rest"
    and "utf8_decode_ignore [192 + q] = []"
  using assms by (auto simp add: is_continuation_def)

lemma dec3:
  assumes "q < 16" "r2 < 64" "r < 64" "q = 0 \<longrightarrow> 32 \<le> r2" "q = 13 \<longrightarrow> r2 < 32"
  shows "utf8_decode_ignore ((224 + q) # (128 + r2) # (128 + r) # rest)
           = (q * 4096 + r2 * 64 + r) # utf8_decode_ignore rest"
    and "utf8_decode_ignore [224 + q] = []"
    and "utf8_decode_ignore [224 + q, 128 + r2] = []"
  using assms by (auto simp add: is_continuation_def)

lemma dec4:
  assumes "q < 5" "r3 < 64" "r2 < 64" "r < 64" "q = 0 \<longrightarrow> 16 \<le> r3" "q = 4 \<longrightarrow> r3 < 16"
  shows "utf8_decode_ignore ((240 + q) # (128 + r3) # (128 + r2) # (128 + r) # rest)
           = (q * 262144 + r3 * 4096 + r2 * 64 + r) # utf8_decode_ignore rest"
    and "utf8_decode_ignore [240 + q] = []"
    and "utf8_decode_ignore [240 + q, 128 + r3] = []"
    and "utf8_decode_ignore [240 + q, 128 + r3, 128 + r2] = []"
  using assms by (auto simp add: is_continuation_def)

lemma decomp2: "(c::nat) = c div 64 * 64 + c mod 64"
  by simp

lemma decomp3: "(c::nat) = c div 4096 * 4096 + c div 64 mod 64 * 64 + c mod 64"
proof -
  have "c div 4096 = c div 64 div 64" by (simp add: div_mult2_eq [symmetric])
  moreover have "c div 64 = c div 64 div 64 * 64 + c div 64 mod 64" by simp
  moreover have "c = c div 64 * 64 + c mod 64" by simp
  ultimately show ?thesis by linarith
qed

lemma decomp4:
  "(c::nat) = c div 262144 * 262144 + c div 4096 mod 64 * 4096 + c div 64 mod 64 * 64 + c mod 64"
proof -
  have "c div 262144 = c div 4096 div 64" by (simp add: div_mult2_eq [symmetric])
  moreover have "c div 4096 = c div 4096 div 64 * 64 + c div 4096 mod 64" by simp
  moreover have "c = c div 4096 * 4096 + c div 64 mod 64 * 64 + c mod 64" by (rule decomp3)
  ultimately show ?thesis by linarith
qed

lemma enc_char_a:
  assumes "utf8_encode_char c = Inr b" "c < 128"
  shows "b = [c]"
  using assms by (simp add: utf8_encode_char_def)

lemma enc_char_b:
  assumes b: "utf8_encode_char c = Inr b" "128 \<le> c" "c < 2048"
  shows "\<exists>q r. b = [192 + q, 128 + r] \<and> c = q * 64 + r \<and> 2 \<le> q \<and> q < 32 \<and> r < 64"
proof -
  define q r where "q = c div 64" and "r = c mod 64"
  have cc: "c = q * 64 + r" and r: "r < 64" by (simp_all add: q_def r_def)
  have q1: "2 \<le> q" using b cc r by linarith
  have q2: "q < 32" using b cc r by linarith
  from b have bb: "b = [192 + q, 128 + r]"
    by (simp add: utf8_encode_char_def q_def r_def)
  show ?thesis using bb cc r q1 q2 by blast
qed

lemma enc_char_c:
  assumes c: "utf8_encode_char c = Inr b" "2048 \<le> c" "c < 65536"
  shows "\<exists>q r2 r. b = [224 + q, 128 + r2, 128 + r] \<and> c = q * 4096 + r2 * 64 + r
     \<and> q < 16 \<and> r2 < 64 \<and> r < 64 \<and> (q = 0 \<longrightarrow> 32 \<le> r2) \<and> (q = 13 \<longrightarrow> r2 < 32)"
proof -
  from c have ns: "c < 55296 \<or> 57343 < c"
    by (auto simp: utf8_encode_char_def split: if_splits)
  define q r2 r where "q = c div 4096" and "r2 = c div 64 mod 64" and "r = c mod 64"
  have cc: "c = q * 4096 + r2 * 64 + r" unfolding q_def r2_def r_def by (rule decomp3)
  have r: "r < 64" "r2 < 64" by (simp_all add: r2_def r_def)
  have q1: "q < 16" using c cc r by linarith
  have q2: "q = 0 \<longrightarrow> 32 \<le> r2" using c cc r by linarith
  have q3: "q = 13 \<longrightarrow> r2 < 32" using ns cc r by linarith
  from c ns have bb: "b = [224 + q, 128 + r2, 128 + r]"
    by (auto simp add: utf8_encode_char_def q_def r2_def r_def)
  show ?thesis using bb cc r q1 q2 q3 by blast
qed

lemma enc_char_d:
  assumes d: "utf8_encode_char c = Inr b" "65536 \<le> c"
  shows "\<exists>q r3 r2 r. b = [240 + q, 128 + r3, 128 + r2, 128 + r]
     \<and> c = q * 262144 + r3 * 4096 + r2 * 64 + r
     \<and> q < 5 \<and> r3 < 64 \<and> r2 < 64 \<and> r < 64 \<and> (q = 0 \<longrightarrow> 16 \<le> r3) \<and> (q = 4 \<longrightarrow> r3 < 16)"
proof -
  from d have lt: "c < 1114112"
    by (auto simp: utf8_encode_char_def split: if_splits)
  define q r3 r2 r where "q = c div 262144" and "r3 = c div 4096 mod 64"
    and "r2 = c div 64 mod 64" and "r = c mod 64"
  have cc: "c = q * 262144 + r3 * 4096 + r2 * 64 + r"
    unfolding q_def r3_def r2_def r_def by (rule decomp4)
  have r: "r < 64" "r2 < 64" "r3 < 64" by (simp_all add: r3_def r2_def r_def)
  have q1: "q < 5" using lt cc r by linarith
  have q2: "q = 0 \<longrightarrow> 16 \<le> r3" using d cc r by linarith
  have q3: "q = 4 \<longrightarrow> r3 < 16" using lt cc r by linarith
  from d lt have bb: "b = [240 + q, 128 + r3, 128 + r2, 128 + r]"
    by (simp add: utf8_encode_char_def q_def r3_def r2_def r_def)
  show ?thesis using bb cc r q1 q2 q3 by blast
qed

lemma take_cases2: "n < 2 \<Longrightarrow> take n [a, b] = [] \<or> take n [a, b] = [a]"
  by (cases n) auto

lemma take_cases3: "n < 3 \<Longrightarrow> take n [a, b, c] = [] \<or> take n [a, b, c] = [a] \<or> take n [a, b, c] = [a, b]"
  by (cases n; cases "n - 1") auto

lemma take_cases4:
  "n < 4 \<Longrightarrow> take n [a, b, c, d] = [] \<or> take n [a, b, c, d] = [a]
     \<or> take n [a, b, c, d] = [a, b] \<or> take n [a, b, c, d] = [a, b, c]"
  by (cases n; cases "n - 1"; cases "n - 2") auto

lemma utf8_decode_encode_char:
  assumes "utf8_encode_char c = Inr b"
  shows "utf8_decode_ignore (b @ rest) = c # utf8_decode_ignore rest"
proof -
  consider (a) "c < 128" | (b) "128 \<le> c" "c < 2048" | (c) "2048 \<le> c" "c < 65536" | (d) "65536 \<le> c"
    by linarith
  then show ?thesis
  proof cases
    case a
    from enc_char_a [OF assms a] have bb: "b = [c]" .
    show ?thesis unfolding bb append.simps by (rule dec1 [OF a])
  next
    case b
    from enc_char_b [OF assms b] obtain q r where
      bb: "b = [192 + q, 128 + r]" and cc: "c = q * 64 + r" and q: "2 \<le> q" "q < 32" "r < 64"
      by blast
    show ?thesis unfolding bb cc append.simps by (rule dec2(1) [OF q])
  next
    case c
    from enc_char_c [OF assms c] obtain q r2 r where
      bb: "b = [224 + q, 128 + r2, 128 + r]" and cc: "c = q * 4096 + r2 * 64 + r" and
      q: "q < 16" "r2 < 64" "r < 64" "q = 0 \<longrightarrow> 32 \<le> r2" "q = 13 \<longrightarrow> r2 < 32" by blast
    show ?thesis unfolding bb cc append.simps by (rule dec3(1) [OF q])
  next
    case d
    from enc_char_d [OF assms d] obtain q r3 r2 r where
      bb: "b = [240 + q, 128 + r3, 128 + r2, 128 + r]" and
      cc: "c = q * 262144 + r3 * 4096 + r2 * 64 + r" and
      q: "q < 5" "r3 < 64" "r2 < 64" "r < 64" "q = 0 \<longrightarrow> 16 \<le> r3" "q = 4 \<longrightarrow> r3 < 16" by blast
    show ?thesis unfolding bb cc append.simps by (rule dec4(1) [OF q])
  qed
qed

lemma utf8_decode_truncated_char:
  assumes "utf8_encode_char c = Inr b" and n: "n < length b"
  shows "utf8_decode_ignore (take n b) = []"
proof -
  have nil: "utf8_decode_ignore [] = []" by (rule utf8_decode_ignore.simps(1))
  consider (a) "c < 128" | (b) "128 \<le> c" "c < 2048" | (c) "2048 \<le> c" "c < 65536" | (d) "65536 \<le> c"
    by linarith
  then show ?thesis
  proof cases
    case a
    from enc_char_a [OF assms(1) a] n have "take n b = []" by simp
    then show ?thesis using nil by (simp only:)
  next
    case b
    from enc_char_b [OF assms(1) b] obtain q r where
      bb: "b = [192 + q, 128 + r]" and q: "2 \<le> q" "q < 32" "r < 64" by blast
    from n bb take_cases2 [of n "192 + q" "128 + r"]
    have "take n b = [] \<or> take n b = [192 + q]" by simp
    then show ?thesis using dec2(2) [OF q] nil by (elim disjE) (simp_all only:)
  next
    case c
    from enc_char_c [OF assms(1) c] obtain q r2 r where
      bb: "b = [224 + q, 128 + r2, 128 + r]" and
      q: "q < 16" "r2 < 64" "r < 64" "q = 0 \<longrightarrow> 32 \<le> r2" "q = 13 \<longrightarrow> r2 < 32" by blast
    from n bb take_cases3 [of n "224 + q" "128 + r2" "128 + r"]
    have "take n b = [] \<or> take n b = [224 + q] \<or> take n b = [224 + q, 128 + r2]" by simp
    then show ?thesis using dec3(2,3) [OF q] nil by (elim disjE) (simp_all only:)
  next
    case d
    from enc_char_d [OF assms(1) d] obtain q r3 r2 r where
      bb: "b = [240 + q, 128 + r3, 128 + r2, 128 + r]" and
      q: "q < 5" "r3 < 64" "r2 < 64" "r < 64" "q = 0 \<longrightarrow> 16 \<le> r3" "q = 4 \<longrightarrow> r3 < 16" by blast
    from n bb take_cases4 [of n "240 + q" "128 + r3" "128 + r2" "128 + r"]
    have "take n b = [] \<or> take n b = [240 + q] \<or> take n b = [240 + q, 128 + r3]
        \<or> take n b = [240 + q, 128 + r3, 128 + r2]" by simp
    then show ?thesis using dec4(2,3,4) [OF q] nil by (elim disjE) (simp_all only:)
  qed
qed

declare utf8_decode_ignore.simps [simp del]

lemma utf8_encode_Cons_Inr:
  "utf8_encode (c # cs) = Inr bs \<longleftrightarrow>
     (\<exists>b bs0. utf8_encode_char c = Inr b \<and> utf8_encode cs = Inr bs0 \<and> bs = b @ bs0)"
  by (auto simp: ebind_Inr_iff)

lemma decode_take_encode:
  "utf8_encode cs = Inr bs \<Longrightarrow>
   \<exists>k bs'. k \<le> length cs \<and> utf8_decode_ignore (take n bs) = take k cs
      \<and> utf8_encode (take k cs) = Inr bs' \<and> length bs' \<le> n
      \<and> (k < length cs \<longrightarrow> (\<exists>b. utf8_encode_char (cs ! k) = Inr b \<and> n < length bs' + length b))"
proof (induction cs arbitrary: bs n)
  case Nil
  then show ?case by (simp add: utf8_decode_ignore.simps(1))
next
  case (Cons c cs)
  from Cons.prems obtain b bs0 where b: "utf8_encode_char c = Inr b"
    and bs0: "utf8_encode cs = Inr bs0" and bs: "bs = b @ bs0"
    unfolding utf8_encode_Cons_Inr by blast
  show ?case
  proof (cases "length b \<le> n")
    case True
    from Cons.IH [OF bs0, of "n - length b"] obtain k bs' where
      k: "k \<le> length cs" and dec: "utf8_decode_ignore (take (n - length b) bs0) = take k cs"
      and enc: "utf8_encode (take k cs) = Inr bs'" and len: "length bs' \<le> n - length b"
      and mx: "k < length cs \<longrightarrow> (\<exists>b'. utf8_encode_char (cs ! k) = Inr b' \<and> n - length b < length bs' + length b')"
      by blast
    have "take n bs = b @ take (n - length b) bs0" using True bs by simp
    then have d: "utf8_decode_ignore (take n bs) = take (Suc k) (c # cs)"
      using utf8_decode_encode_char [OF b] dec by simp
    have e: "utf8_encode (take (Suc k) (c # cs)) = Inr (b @ bs')" using b enc by simp
    have l: "length (b @ bs') \<le> n" using len True by simp
    have m: "Suc k < length (c # cs) \<longrightarrow>
        (\<exists>b'. utf8_encode_char ((c # cs) ! Suc k) = Inr b' \<and> n < length (b @ bs') + length b')"
      using mx True by auto
    from k d e l m show ?thesis
      by (intro exI [of _ "Suc k"] exI [of _ "b @ bs'"]) simp
  next
    case False
    then have "take n bs = take n b" using bs by simp
    then have d: "utf8_decode_ignore (take n bs) = take 0 (c # cs)"
      using utf8_decode_truncated_char [OF b, of n] False by simp
    show ?thesis using d b False
      by (intro exI [of _ 0] exI [of _ "[]"]) simp
  qed
qed

lemma split_head:
  "take (nat (str_rfind c p + 1)) p = rev (dropWhile (\<lambda>x. x \<noteq> c) (rev p))"
proof -
  have p: "p = rev (dropWhile (\<lambda>x. x \<noteq> c) (rev p)) @ rev (takeWhile (\<lambda>x. x \<noteq> c) (rev p))"
    by (metis rev_append rev_rev_ident takeWhile_dropWhile_id)
  show ?thesis
  proof (cases "c \<in> set p")
    case True
    have "length (takeWhile (\<lambda>x. x \<noteq> c) (rev p)) \<le> length p"
      by (metis length_rev length_takeWhile_le)
    then have "nat (str_rfind c p + 1) = length p - length (takeWhile (\<lambda>x. x \<noteq> c) (rev p))"
      using True by (simp add: str_rfind_def)
    also have "\<dots> = length (rev (dropWhile (\<lambda>x. x \<noteq> c) (rev p)))"
      by (subst p) simp
    finally show ?thesis by (subst p) simp
  next
    case False
    then have "dropWhile (\<lambda>x. x \<noteq> c) (rev p) = []" by auto
    then show ?thesis using False by (simp add: str_rfind_def)
  qed
qed

lemma split_tail:
  "drop (nat (str_rfind c p + 1)) p = rev (takeWhile (\<lambda>x. x \<noteq> c) (rev p))"
proof -
  have p: "p = rev (dropWhile (\<lambda>x. x \<noteq> c) (rev p)) @ rev (takeWhile (\<lambda>x. x \<noteq> c) (rev p))"
    by (metis rev_append rev_rev_ident takeWhile_dropWhile_id)
  have "length (take (nat (str_rfind c p + 1)) p) = length (rev (dropWhile (\<lambda>x. x \<noteq> c) (rev p)))"
    by (simp only: split_head)
  then show ?thesis
    by (metis append_eq_conv_conj append_take_drop_id p split_head)
qed

lemma os_path_split_eq:
  "os_path_split p =
     (let head = rev (dropWhile (\<lambda>x. x \<noteq> 47) (rev p))
      in (if head \<noteq> [] \<and> head \<noteq> replicate (length head) 47 then str_rstrip 47 head else head,
          rev (takeWhile (\<lambda>x. x \<noteq> 47) (rev p))))"
  unfolding os_path_split_def Let_def split_head split_tail by (rule refl)

lemma os_path_split_tail_no_sep: "47 \<notin> set (snd (os_path_split p))"
  by (auto simp: os_path_split_eq Let_def dest: set_takeWhileD)

lemma os_path_split_head_shape:
  assumes "\<exists>c\<in>set (fst (os_path_split p)). c \<noteq> 47"
  shows "fst (os_path_split p) \<noteq> [] \<and> last (fst (os_path_split p)) \<noteq> 47"
proof -
  define head where "head = rev (dropWhile (\<lambda>x. x \<noteq> 47) (rev p))"
  show ?thesis
  proof (cases "head \<noteq> [] \<and> head \<noteq> replicate (length head) 47")
    case True
    then have f: "fst (os_path_split p) = rev (dropWhile (\<lambda>x. x = 47) (rev head))"
      unfolding os_path_split_eq Let_def head_def [symmetric] by (auto simp: str_rstrip_def)
    from assms f have ne: "dropWhile (\<lambda>x. x = 47) (rev head) \<noteq> []" by fastforce
    then have "hd (dropWhile (\<lambda>x. x = 47) (rev head)) \<noteq> 47"
      using hd_dropWhile by blast
    then show ?thesis using ne f by (simp add: last_rev)
  next
    case False
    then have f: "fst (os_path_split p) = head"
      unfolding os_path_split_eq Let_def head_def [symmetric] by auto
    from False have "head = [] \<or> head = replicate (length head) 47" by blast
    then have "\<forall>c\<in>set head. c = 47"
      by (metis empty_iff empty_set in_set_replicate)
    with assms f show ?thesis by auto
  qed
qed

lemma os_path_split_join:
  assumes f: "47 \<notin> set f"
  shows "snd (os_path_split (d @ 47 # f)) = f"
    and "d \<noteq> [] \<Longrightarrow> last d \<noteq> 47 \<Longrightarrow> fst (os_path_split (d @ 47 # f)) = d"
proof -
  have tw: "takeWhile (\<lambda>x. x \<noteq> 47) (rev f @ 47 # rev d) = rev f"
    using f by (auto simp add: takeWhile_tail)
  have dw: "dropWhile (\<lambda>x. x \<noteq> 47) (rev f @ 47 # rev d) = 47 # rev d"
    using f by (auto simp add: dropWhile_append3)
  show "snd (os_path_split (d @ 47 # f)) = f"
    by (simp add: os_path_split_eq Let_def tw)
  assume d: "d \<noteq> []" "last d \<noteq> 47"
  then have hd: "hd (rev d) \<noteq> 47" by (simp add: hd_rev)
  have "d @ [47] \<noteq> replicate (length (d @ [47])) 47"
  proof
    assume "d @ [47] = replicate (length (d @ [47])) 47"
    then have "set (d @ [47]) \<subseteq> {47}" by (metis set_replicate_conv_if subset_insertI subset_refl empty_subsetI)
    with d show False by (metis last_in_set le_sup_iff set_append singletonD subsetD)
  qed
  moreover have "dropWhile (\<lambda>x. x = 47) (rev d) = rev d"
    using d hd by (cases "rev d") auto
  ultimately show "fst (os_path_split (d @ 47 # f)) = d"
    by (simp add: os_path_split_eq Let_def dw str_rstrip_def)
qed

text \<open>
  Where the relative path has a directory part. Let \<^verbatim>\<open>os.path.relpath(path)\<close> succeed,
  let \<open>(directory, filename)\<close> be the split that line 194 computes (of the relative path
  with its backslashes replaced), let \<open>directory\<close> hold a character other than a slash, let
  the file name be encodable and \<open>byte_limit\<close> non-negative. Then the function returns
  \<open>directory + '/' + fixed\<close>, where \<open>fixed\<close> is the longest prefix of \<open>filename\<close> that
  encodes in at most \<open>byte_limit\<close> bytes; \<open>fixed\<close> and \<open>directory\<close> are the two components
  of the returned path.
\<close>

lemma fix_byte_limit_longest_prefix:
  assumes rel: "os_path_relpath cwd path = Inr rel"
      and sp: "os_path_split (str_replace 92 47 rel) = (directory, filename)"
      and fb: "utf8_encode filename = Inr filename_bytes"
      and lim: "0 \<le> byte_limit"
      and dir: "\<exists>c\<in>set directory. c \<noteq> 47"
  shows "\<exists>k bs.
           fix_byte_limit cwd path byte_limit = Inr (directory @ [47] @ take k filename)
         \<and> snd (os_path_split (directory @ [47] @ take k filename)) = take k filename
         \<and> utf8_encode (take k filename) = Inr bs
         \<and> int (length bs) \<le> byte_limit
         \<and> (k < length filename \<longrightarrow>
              (\<exists>b. utf8_encode_char (filename ! k) = Inr b \<and> byte_limit < int (length bs + length b)))
         \<and> fst (os_path_split (directory @ [47] @ take k filename)) = directory"
proof -
  have sl: "slice_to byte_limit filename_bytes = take (nat byte_limit) filename_bytes"
    using lim by (simp add: slice_to_def)
  from decode_take_encode [OF fb, of "nat byte_limit"] obtain k bs where
    k: "k \<le> length filename"
    and dec: "utf8_decode_ignore (take (nat byte_limit) filename_bytes) = take k filename"
    and enc: "utf8_encode (take k filename) = Inr bs" and len: "length bs \<le> nat byte_limit"
    and mx: "k < length filename \<longrightarrow>
          (\<exists>b. utf8_encode_char (filename ! k) = Inr b \<and> nat byte_limit < length bs + length b)"
    by blast
  have r: "fix_byte_limit cwd path byte_limit = Inr (directory @ [47] @ take k filename)"
    using rel sp fb sl dec by (simp add: fix_byte_limit_def Let_def)
  have nosep: "47 \<notin> set (take k filename)"
    using os_path_split_tail_no_sep [of "str_replace 92 47 rel"] sp
    by (auto dest: in_set_takeD)
  have s1: "snd (os_path_split (directory @ [47] @ take k filename)) = take k filename"
    using os_path_split_join(1) [OF nosep, of directory] by simp
  have s2: "fst (os_path_split (directory @ [47] @ take k filename)) = directory"
  proof -
    from dir os_path_split_head_shape [of "str_replace 92 47 rel"] sp
    have "directory \<noteq> []" "last directory \<noteq> 47" by auto
    then show ?thesis
      using os_path_split_join(2) [OF nosep, of directory] by simp
  qed
  have l: "int (length bs) \<le> byte_limit" using len lim by linarith
  have m: "k < length filename \<longrightarrow>
      (\<exists>b. utf8_encode_char (filename ! k) = Inr b \<and> byte_limit < int (length bs + length b))"
    using mx lim by (metis nat_less_iff)
  from r s1 enc l m s2 show ?thesis by blast
qed

lemmas path_eval =
  ustr_of_def example_cwd_def os_path_relpath_def os_path_abspath_def os_path_normpath_def
  os_path_join_def startswith_def normpath_step_def os_path_split_def str_rfind_def
  str_rstrip_def str_replace_def Let_def

text \<open>
  C10 (code bug). The claim holds where the path has a directory part (the lemma above),
  and the code breaks it where the path has none. For \<^verbatim>\<open>fix_byte_limit('song.flac')\<close>,
  called in \<^verbatim>\<open>/home/user\<close>, \<^verbatim>\<open>os.path.split\<close> gives the directory \<^verbatim>\<open>''\<close>, and line 202
  returns \<^verbatim>\<open>'' + '/' + 'song.flac'\<close>: the file name is kept, but the directory component
  of the returned path is the root directory \<^verbatim>\<open>'/'\<close> and not \<^verbatim>\<open>''\<close>. The comments of
  lines 190 and 201 say that the function works on the relative path and joins the
  directory and the file name.
\<close>

theorem fix_byte_limit_no_directory:
  "os_path_relpath example_cwd (ustr_of ''song.flac'') = Inr (ustr_of ''song.flac'')
   \<and> os_path_split (str_replace 92 47 (ustr_of ''song.flac'')) = ([], ustr_of ''song.flac'')
   \<and> fix_byte_limit example_cwd (ustr_of ''song.flac'') 250 = Inr (ustr_of ''/song.flac'')
   \<and> os_path_split (ustr_of ''/song.flac'') = ([47], ustr_of ''song.flac'')
   \<and> fst (os_path_split (ustr_of ''/song.flac'')) \<noteq> fst (os_path_split (ustr_of ''song.flac''))"
  by (simp add: path_eval fix_byte_limit_def slice_to_def utf8_encode_char_def
      utf8_decode_ignore.simps)

section \<open>Properties of the checksum utilities and the downloader\<close>

declare hex_digits.simps [simp del] dec_digits.simps [simp del] read_chunks.simps [simp del]

lemma hex_digits_length: "n < 2 ^ (4 * k) \<Longrightarrow> 0 < k \<Longrightarrow> length (hex_digits n) \<le> k"
proof (induction n arbitrary: k rule: hex_digits.induct)
  case (1 n)
  show ?case
  proof (cases "n < 16")
    case True
    then show ?thesis using "1.prems" by (subst hex_digits.simps) simp
  next
    case False
    from "1.prems" obtain k' where k: "k = Suc k'" by (cases k) auto
    have "k' \<noteq> 0"
    proof
      assume "k' = 0"
      with "1.prems"(1) k have "n < 16" by simp
      with False show False by simp
    qed
    then have k': "0 < k'" by simp
    have "n < 16 * 2 ^ (4 * k')" using "1.prems"(1) k by (simp add: power_add)
    then have "n div 16 < 2 ^ (4 * k')"
      by (simp add: less_mult_imp_div_less mult.commute)
    from "1.IH" [OF False this k'] False show ?thesis
      by (subst hex_digits.simps) (simp add: k)
  qed
qed

lemma format_032x_length: "n < 2 ^ 128 \<Longrightarrow> length (format_032x n) = 32"
proof -
  assume "n < 2 ^ 128"
  moreover have "(4::nat) * 32 = 128" by simp
  ultimately have "n < 2 ^ (4 * 32)" by (simp only:)
  then have "length (hex_digits n) \<le> 32" by (rule hex_digits_length) (rule zero_less_numeral)
  then show ?thesis by (simp add: format_032x_def Let_def)
qed

lemma hexdigest_length: "length (hexdigest E h) = 32"
proof -
  have "unat (md5_digest E h) < 2 ^ LENGTH(128)" by (rule unsigned_less)
  then show ?thesis unfolding hexdigest_def by (intro format_032x_length) simp
qed

lemma file_read_cases:
  "file_read E p n f w =
     (case faults E (length (trace w)) (Read p n) of
        Some e \<Rightarrow> (Inl e, w\<lparr>trace := trace w @ [Read p n]\<rparr>)
      | None \<Rightarrow> (Inr (take n f, drop n f), w\<lparr>trace := trace w @ [Read p n]\<rparr>))"
  by (simp add: file_read_def env_call_def ret_def Let_def split: option.splits)

lemma read_chunks_result:
  "read_chunks E p h f w = (r, w') \<Longrightarrow>
     fs w' = fs w \<and> stdout w' = stdout w
     \<and> (\<forall>d. r = Inr d \<longrightarrow> d = h @ f)
     \<and> (\<forall>e. r = Inl e \<longrightarrow> (\<exists>n ev. faults E n ev = Some e))"
proof (induction E p h f w rule: read_chunks.induct)
  case (1 E p h f w)
  show ?case
  proof (cases "faults E (length (trace w)) (Read p 4096)")
    case (Some e)
    with "1.prems" show ?thesis
      by (subst (asm) read_chunks.simps) (auto simp: file_read_cases)
  next
    case None
    let ?w1 = "w\<lparr>trace := trace w @ [Read p 4096]\<rparr>"
    have fr: "file_read E p 4096 f w = (Inr (take 4096 f, drop 4096 f), ?w1)"
      using None by (simp add: file_read_cases)
    show ?thesis
    proof (cases "take 4096 f = []")
      case True
      then have "f = []" by (cases f) auto
      with "1.prems" fr show ?thesis
        by (subst (asm) read_chunks.simps) auto
    next
      case False
      with "1.prems" fr have
        rec: "read_chunks E p (h @ take 4096 f) (drop 4096 f) ?w1 = (r, w')"
        by (subst (asm) read_chunks.simps) auto
      from "1.IH" [OF fr [symmetric] refl refl False rec] show ?thesis by simp
    qed
  qed
qed

lemma read_chunks_total:
  "\<forall>n. faults E n (Read p 4096) = None \<Longrightarrow>
     read_chunks E p h f w =
       (Inr (h @ f),
        w\<lparr>trace := trace w @ replicate ((length f + 4095) div 4096 + 1) (Read p 4096)\<rparr>)"
proof (induction E p h f w rule: read_chunks.induct)
  case (1 E p h f w)
  let ?w1 = "w\<lparr>trace := trace w @ [Read p 4096]\<rparr>"
  have fr: "file_read E p 4096 f w = (Inr (take 4096 f, drop 4096 f), ?w1)"
    using "1.prems" by (simp add: file_read_cases)
  show ?case
  proof (cases "take 4096 f = []")
    case True
    then have "f = []" by (cases f) auto
    with fr show ?thesis
      by (subst read_chunks.simps) auto
  next
    case False
    then have len: "0 < length f" by auto
    have cnt: "(length f + 4095) div 4096 + 1 = Suc ((length (drop 4096 f) + 4095) div 4096 + 1)"
    proof (cases "4096 \<le> length f")
      case True
      then have "length f + 4095 = (length f - 4096 + 4095) + 4096" by simp
      then have "(length f + 4095) div 4096 = Suc ((length f - 4096 + 4095) div 4096)"
        by (metis div_add_self2 zero_neq_numeral Suc_eq_plus1)
      then show ?thesis by simp
    next
      case False
      moreover have "Suc 0 \<le> length f" using len by linarith
      ultimately have "(length f + 4095) div 4096 = 1" by (intro div_nat_eqI) simp_all
      with False show ?thesis by simp
    qed
    from cnt have cnt': "(length f + 4095) div 4096 = Suc ((length (drop 4096 f) + 4095) div 4096)"
      by simp
    from "1.IH" [OF fr [symmetric] refl refl False "1.prems"]
    have "read_chunks E p (h @ take 4096 f) (drop 4096 f) ?w1 =
       (Inr (h @ f), ?w1\<lparr>trace := trace ?w1 @ replicate ((length (drop 4096 f) + 4095) div 4096 + 1) (Read p 4096)\<rparr>)"
      by simp
    with fr False show ?thesis
      by (subst read_chunks.simps) (simp add: cnt' del: length_drop)
  qed
qed

lemma no_fault_in_refl: "trace w' = trace w \<Longrightarrow> no_fault_in E w w'"
  by (auto simp add: no_fault_in_def)

lemma no_fault_in_step:
  assumes "faults E (length (trace w)) ev = None" "trace w1 = trace w @ [ev]"
    and "prefix (trace w1) (trace w')" "no_fault_in E w1 w'"
  shows "no_fault_in E w w'"
  unfolding no_fault_in_def
proof (intro allI impI)
  fix n assume n: "length (trace w) \<le> n \<and> n < length (trace w')"
  from assms(3) obtain evs where evs: "trace w' = trace w1 @ evs" by (auto simp: prefix_def)
  show "faults E n (trace w' ! n) = None"
  proof (cases "n = length (trace w)")
    case True
    then have "trace w' ! n = ev" using evs assms(2) by (simp add: nth_append)
    with True assms(1) show ?thesis by simp
  next
    case False
    with n assms(2) have "length (trace w1) \<le> n" by simp
    with assms(4) n show ?thesis by (simp add: no_fault_in_def)
  qed
qed

lemma read_chunks_trace:
  "read_chunks E p h f w = (r, w') \<Longrightarrow>
     prefix (trace w) (trace w') \<and> (\<forall>d. r = Inr d \<longrightarrow> no_fault_in E w w')"
proof (induction E p h f w rule: read_chunks.induct)
  case (1 E p h f w)
  let ?w1 = "w\<lparr>trace := trace w @ [Read p 4096]\<rparr>"
  show ?case
  proof (cases "faults E (length (trace w)) (Read p 4096)")
    case (Some e)
    with "1.prems" show ?thesis
      by (subst (asm) read_chunks.simps) (auto simp: file_read_cases)
  next
    case None
    have fr: "file_read E p 4096 f w = (Inr (take 4096 f, drop 4096 f), ?w1)"
      using None by (simp add: file_read_cases)
    show ?thesis
    proof (cases "take 4096 f = []")
      case True
      with "1.prems" fr have w': "w' = ?w1" and "r = Inr h"
        by (subst (asm) read_chunks.simps; auto)+
      have "no_fault_in E w ?w1"
        by (rule no_fault_in_step [OF None, of ?w1]) (simp_all add: no_fault_in_refl)
      then show ?thesis by (simp add: w')
    next
      case False
      with "1.prems" fr have
        rec: "read_chunks E p (h @ take 4096 f) (drop 4096 f) ?w1 = (r, w')"
        by (subst (asm) read_chunks.simps) auto
      from "1.IH" [OF fr [symmetric] refl refl False rec]
      have p: "prefix (trace ?w1) (trace w')" and nf: "\<forall>d. r = Inr d \<longrightarrow> no_fault_in E ?w1 w'"
        by simp_all
      from p have "prefix (trace w) (trace w')" by (auto simp: prefix_def)
      moreover have "\<forall>d. r = Inr d \<longrightarrow> no_fault_in E w w'"
        using nf p None by (auto intro: no_fault_in_step [of E w "Read p 4096" ?w1])
      ultimately show ?thesis by simp
    qed
  qed
qed

lemma open_read_cases:
  "open_read E p w =
     (case faults E (length (trace w)) (OpenRead p) of
        Some e \<Rightarrow> (Inl e, w\<lparr>trace := trace w @ [OpenRead p]\<rparr>)
      | None \<Rightarrow>
         (case fs w p of
            None \<Rightarrow> (Inl (OSError ENOENT (''No such file or directory: '' @ p)),
                         w\<lparr>trace := trace w @ [OpenRead p]\<rparr>)
          | Some content \<Rightarrow> (Inr content, w\<lparr>trace := trace w @ [OpenRead p]\<rparr>)))"
  by (simp add: open_read_def env_call_def Let_def split: option.splits)

text \<open>
  C7. For every run of \<^verbatim>\<open>calculate_file_md5\<close>, in every environment:
  \<^item> the files are left as they were;
  \<^item> a value is returned only if no call failed, and it is the digest of the entire
    content of the file, as 32 hexadecimal characters;
  \<^item> for a readable file (it exists, opening and reading it do not fail) the value is
    returned, and the file was read by \<^verbatim>\<open>read(4096)\<close> calls only: one for each chunk of
    4096 bytes, and the one that finds the end;
  \<^item> an exception that leaves the function is never an \<^verbatim>\<open>OSError\<close>: an I/O error (of a
    failing call, or of a missing file) is wrapped in an \<^verbatim>\<open>Exception\<close> whose message
    names the file; any other exception is one that a call raised.
\<close>

theorem calculate_file_md5_correct:
  assumes run: "calculate_file_md5 E file_path w = (r, w')"
  shows "fs w' = fs w
       \<and> (\<forall>d. r = Inr d \<longrightarrow>
             (\<exists>content. fs w file_path = Some content \<and> d = hexdigest E content)
             \<and> length d = 32 \<and> no_fault_in E w w')
       \<and> (\<forall>content. fs w file_path = Some content
               \<and> (\<forall>n. faults E n (OpenRead file_path) = None)
               \<and> (\<forall>n. faults E n (Read file_path 4096) = None) \<longrightarrow>
             r = Inr (hexdigest E content)
             \<and> trace w' = trace w @ OpenRead file_path
                  # replicate ((length content + 4095) div 4096 + 1) (Read file_path 4096))
       \<and> (\<forall>e. r = Inl e \<longrightarrow>
             (\<exists>e0. is_OSError e0
                 \<and> e = Exception (''Error calculating MD5 hash for '' @ file_path @ '': '' @ exn_str e0))
             \<or> (\<not> is_OSError e \<and> (\<exists>n ev. faults E n ev = Some e)))"
proof -
  let ?w1 = "w\<lparr>trace := trace w @ [OpenRead file_path]\<rparr>"
  let ?wrap = "\<lambda>e. Exception (''Error calculating MD5 hash for '' @ file_path @ '': '' @ exn_str e)"
  show ?thesis
  proof (cases "faults E (length (trace w)) (OpenRead file_path)")
    case (Some e)
    with run have "w' = ?w1" "r = Inl (if is_OSError e then ?wrap e else e)"
      by (auto simp: calculate_file_md5_def try_except_def bind_io_def raise_def open_read_cases
          split: if_splits)
    with Some show ?thesis by auto
  next
    case None
    show ?thesis
    proof (cases "fs w file_path")
      case nofile: None
      with None run have "w' = ?w1"
        "r = Inl (?wrap (OSError ENOENT (''No such file or directory: '' @ file_path)))"
        by (auto simp: calculate_file_md5_def try_except_def bind_io_def raise_def open_read_cases)
      with nofile show ?thesis by (auto intro: exI [of _ "OSError ENOENT (''No such file or directory: '' @ file_path)"])
    next
      case (Some content)
      obtain r1 w1 where rc: "read_chunks E file_path [] content ?w1 = (r1, w1)"
        by (cases "read_chunks E file_path [] content ?w1")
      from read_chunks_result [OF rc] have
        f1: "fs w1 = fs w" and d1: "\<forall>d. r1 = Inr d \<longrightarrow> d = content"
        and e1: "\<forall>e. r1 = Inl e \<longrightarrow> (\<exists>n ev. faults E n ev = Some e)"
        by simp_all
      from read_chunks_trace [OF rc] have
        p1: "prefix (trace ?w1) (trace w1)" and n1: "\<forall>d. r1 = Inr d \<longrightarrow> no_fault_in E ?w1 w1"
        by simp_all
      from run None Some rc have res: "w' = w1"
        "r = (case r1 of Inl e \<Rightarrow> Inl (if is_OSError e then ?wrap e else e)
                       | Inr d \<Rightarrow> Inr (hexdigest E d))"
        by (auto simp: calculate_file_md5_def try_except_def bind_io_def raise_def ret_def
            open_read_cases split: sum.splits if_splits)
      have c1: "fs w' = fs w" using res f1 by simp
      have c2: "\<forall>d. r = Inr d \<longrightarrow>
             (\<exists>content. fs w file_path = Some content \<and> d = hexdigest E content)
             \<and> length d = 32 \<and> no_fault_in E w w'"
      proof (intro allI impI)
        fix d assume "r = Inr d"
        with res obtain d1' where r1: "r1 = Inr d1'" and d: "d = hexdigest E d1'"
          by (cases r1) auto
        from d1 r1 have "d1' = content" by simp
        moreover have "no_fault_in E w w'"
          using n1 r1 p1 None res by (auto intro: no_fault_in_step [of E w "OpenRead file_path" ?w1])
        ultimately show "(\<exists>content. fs w file_path = Some content \<and> d = hexdigest E content)
             \<and> length d = 32 \<and> no_fault_in E w w'"
          using Some d by (simp add: hexdigest_length)
      qed
      have c3: "\<forall>content. fs w file_path = Some content
               \<and> (\<forall>n. faults E n (OpenRead file_path) = None)
               \<and> (\<forall>n. faults E n (Read file_path 4096) = None) \<longrightarrow>
             r = Inr (hexdigest E content)
             \<and> trace w' = trace w @ OpenRead file_path
                  # replicate ((length content + 4095) div 4096 + 1) (Read file_path 4096)"
      proof (intro allI impI)
        fix c assume a: "fs w file_path = Some c
               \<and> (\<forall>n. faults E n (OpenRead file_path) = None)
               \<and> (\<forall>n. faults E n (Read file_path 4096) = None)"
        then have c: "c = content" using Some by simp
        from a have "\<forall>n. faults E n (Read file_path 4096) = None" by simp
        from read_chunks_total [OF this, of "[]" content ?w1] rc
        have "r1 = Inr content" "trace w1 = trace ?w1 @ replicate ((length content + 4095) div 4096 + 1) (Read file_path 4096)"
          by auto
        with res c show "r = Inr (hexdigest E c)
             \<and> trace w' = trace w @ OpenRead file_path
                  # replicate ((length c + 4095) div 4096 + 1) (Read file_path 4096)"
          by simp
      qed
      have c4: "\<forall>e. r = Inl e \<longrightarrow>
             (\<exists>e0. is_OSError e0 \<and> e = ?wrap e0)
             \<or> (\<not> is_OSError e \<and> (\<exists>n ev. faults E n ev = Some e))"
      proof (intro allI impI)
        fix e assume "r = Inl e"
        with res obtain e1' where r1: "r1 = Inl e1'" and e: "e = (if is_OSError e1' then ?wrap e1' else e1')"
          by (cases r1) auto
        from e1 r1 have "\<exists>n ev. faults E n ev = Some e1'" by simp
        with e show "(\<exists>e0. is_OSError e0 \<and> e = ?wrap e0)
             \<or> (\<not> is_OSError e \<and> (\<exists>n ev. faults E n ev = Some e))"
          by auto
      qed
      from c1 c2 c3 c4 show ?thesis by blast
    qed
  qed
qed

lemma mutagen_FLAC_cases:
  "mutagen_FLAC E p w =
     (case faults E (length (trace w)) (FlacOpen p) of
        Some e \<Rightarrow> (Inl e, w\<lparr>trace := trace w @ [FlacOpen p]\<rparr>)
      | None \<Rightarrow>
         (case fs w p of
            None \<Rightarrow> (Inl (LibraryError (''No such file or directory: '' @ p)),
                         w\<lparr>trace := trace w @ [FlacOpen p]\<rparr>)
          | Some content \<Rightarrow>
             (case flac_parse E content of
                None \<Rightarrow> (Inl (LibraryError (p @ '' is not a valid FLAC file'')),
                             w\<lparr>trace := trace w @ [FlacOpen p]\<rparr>)
              | Some info \<Rightarrow> (Inr info, w\<lparr>trace := trace w @ [FlacOpen p]\<rparr>))))"
  by (simp add: mutagen_FLAC_def env_call_def Let_def split: option.splits)

lemma mutagen_FLAC_world:
  "mutagen_FLAC E p w = (r, w') \<Longrightarrow> w' = w\<lparr>trace := trace w @ [FlacOpen p]\<rparr>"
  by (auto simp: mutagen_FLAC_cases split: option.splits)

text \<open>
  C2. For every file path and every checksum string whose length is not 32,
  \<^verbatim>\<open>set_flac_md5_signature\<close> does not return \<^verbatim>\<open>True\<close>: it returns \<^verbatim>\<open>False\<close>, or the one
  call it made was interrupted by an exception that is not an \<^verbatim>\<open>Exception\<close>, which
  passes through. The files are left as they were, and the only call made is the opening
  of the FLAC file: nothing is saved.
\<close>

theorem set_flac_md5_signature_invalid_length:
  assumes len: "length md5_hash \<noteq> 32"
      and run: "set_flac_md5_signature E file_path md5_hash w = (r, w')"
  shows "r \<noteq> Inr True
       \<and> fs w' = fs w
       \<and> trace w' = trace w @ [FlacOpen file_path]
       \<and> (r = Inr False
            \<or> (\<exists>e. r = Inl e \<and> \<not> is_Exception e
                    \<and> faults E (length (trace w)) (FlacOpen file_path) = Some e))"
proof -
  obtain r0 w0 where open0: "mutagen_FLAC E file_path w = (r0, w0)"
    by (cases "mutagen_FLAC E file_path w")
  from mutagen_FLAC_world [OF open0] have w0: "w0 = w\<lparr>trace := trace w @ [FlacOpen file_path]\<rparr>" .
  show ?thesis
  proof (cases r0)
    case (Inr info)
    with run len open0 w0 show ?thesis
      by (auto simp: set_flac_md5_signature_def try_except_def bind_io_def raise_def ret_def
          print_line_def)
  next
    case (Inl e)
    show ?thesis
    proof (cases "is_Exception e")
      case True
      with Inl run len open0 w0 show ?thesis
        by (auto simp: set_flac_md5_signature_def try_except_def bind_io_def raise_def ret_def
            print_line_def)
    next
      case False
      then have "e = KeyboardInterrupt" by (cases e) auto
      with Inl open0 have "faults E (length (trace w)) (FlacOpen file_path) = Some e"
        by (auto simp: mutagen_FLAC_cases split: option.splits)
      with False Inl run len open0 w0 show ?thesis
        by (auto simp: set_flac_md5_signature_def try_except_def bind_io_def raise_def ret_def
            print_line_def)
    qed
  qed
qed

text \<open>
  C3. If \<^verbatim>\<open>FLAC(file_path)\<close> reads a STREAMINFO block whose checksum is not zero,
  \<^verbatim>\<open>fix_flac_md5_signature\<close> returns that checksum formatted by \<^verbatim>\<open>:032x\<close>, which is 32
  characters long, and returns at once: the world it leaves is the one the opening left.
  No file is changed, nothing is printed, and the opening is the only call made: no
  temporary file, no ffmpeg run, no save.
\<close>

theorem fix_flac_md5_signature_early_return:
  assumes open0: "mutagen_FLAC E file_path w = (Inr original_flac, w1)"
      and nz: "md5_signature original_flac \<noteq> 0"
  shows "fix_flac_md5_signature E file_path w
           = (Inr (format_032x (unat (md5_signature original_flac))), w1)
       \<and> length (format_032x (unat (md5_signature original_flac))) = 32
       \<and> fs w1 = fs w
       \<and> stdout w1 = stdout w
       \<and> trace w1 = trace w @ [FlacOpen file_path]"
proof -
  from mutagen_FLAC_world [OF open0] have w1: "w1 = w\<lparr>trace := trace w @ [FlacOpen file_path]\<rparr>" .
  have "unat (md5_signature original_flac) < 2 ^ LENGTH(128)" by (rule unsigned_less)
  then have "length (format_032x (unat (md5_signature original_flac))) = 32"
    by (intro format_032x_length) simp
  moreover have "fix_flac_md5_signature E file_path w
           = (Inr (format_032x (unat (md5_signature original_flac))), w1)"
    using open0 nz by (simp add: fix_flac_md5_signature_def try_except_def bind_io_def ret_def)
  ultimately show ?thesis using w1 by simp
qed

lemmas io_eval =
  ret_def raise_def bind_io_def try_except_def try_finally_def env_call_def print_line_def
  lift_def Let_def example_env_def no_faults_def example_world_def

theorem calculate_file_md5_correct_witness:
  "fst (calculate_file_md5 (example_env no_faults) ''a.bin'' example_world)
     = Inr (hexdigest (example_env no_faults) [1, 2, 3])
   \<and> length (hexdigest (example_env no_faults) [1, 2, 3]) = 32
   \<and> trace (snd (calculate_file_md5 (example_env no_faults) ''a.bin'' example_world))
     = [OpenRead ''a.bin'', Read ''a.bin'' 4096, Read ''a.bin'' 4096]
   \<and> fs (snd (calculate_file_md5 (example_env no_faults) ''a.bin'' example_world)) = fs example_world
   \<and> fst (calculate_file_md5 (example_env no_faults) ''gone.bin'' example_world)
     = Inl (Exception (''Error calculating MD5 hash for gone.bin: No such file or directory: gone.bin''))"
proof -
  let ?E = "example_env no_faults"
  obtain r w' where run: "calculate_file_md5 ?E ''a.bin'' example_world = (r, w')"
    by (cases "calculate_file_md5 ?E ''a.bin'' example_world")
  have ex: "fs example_world ''a.bin'' = Some [1, 2, 3]"
    by (simp add: example_world_def)
  have ok: "(\<forall>n. faults ?E n (OpenRead ''a.bin'') = None)
      \<and> (\<forall>n. faults ?E n (Read ''a.bin'' 4096) = None)"
    by (simp add: example_env_def no_faults_def)
  have tr: "trace example_world = []" by (simp add: example_world_def)
  note T = calculate_file_md5_correct [OF run]
  have c1: "fs w' = fs example_world" by (rule T [THEN conjunct1])
  have "r = Inr (hexdigest ?E [1, 2, 3])
      \<and> trace w' = trace example_world @ OpenRead ''a.bin''
        # replicate ((length [1, 2, 3 :: nat] + 4095) div 4096 + 1) (Read ''a.bin'' 4096)"
    using ex ok by (intro T [THEN conjunct2, THEN conjunct2, THEN conjunct1, THEN spec, THEN mp]) simp
  then have c3: "r = Inr (hexdigest ?E [1, 2, 3])"
    and c4: "trace w' = [OpenRead ''a.bin'', Read ''a.bin'' 4096, Read ''a.bin'' 4096]"
    using tr by (simp_all add: numeral_2_eq_2)
  have c2: "length (hexdigest ?E [1, 2, 3]) = 32" by (rule hexdigest_length)
  note c1 c2 c3 c4
  moreover have "fst (calculate_file_md5 ?E ''gone.bin'' example_world)
     = Inl (Exception (''Error calculating MD5 hash for gone.bin: No such file or directory: gone.bin''))"
    by (simp add: calculate_file_md5_def open_read_def io_eval)
  ultimately show ?thesis using run by simp
qed

theorem set_flac_md5_signature_invalid_length_witness:
  "length ''d41d8cd9'' \<noteq> 32
   \<and> fst (set_flac_md5_signature (example_env no_faults) ''song.flac'' ''d41d8cd9'' example_world)
       = Inr False
   \<and> fs (snd (set_flac_md5_signature (example_env no_faults) ''song.flac'' ''d41d8cd9'' example_world))
       = fs example_world
   \<and> trace (snd (set_flac_md5_signature (example_env no_faults) ''song.flac'' ''d41d8cd9'' example_world))
       = [FlacOpen ''song.flac'']"
proof -
  let ?E = "example_env no_faults"
  obtain r w' where run:
    "set_flac_md5_signature ?E ''song.flac'' ''d41d8cd9'' example_world = (r, w')"
    by (cases "set_flac_md5_signature ?E ''song.flac'' ''d41d8cd9'' example_world")
  have len: "length ''d41d8cd9'' \<noteq> 32" by simp
  have nf: "faults ?E (length (trace example_world)) (FlacOpen ''song.flac'') = None"
    by (simp add: example_env_def no_faults_def)
  have tr: "trace example_world = []" by (simp add: example_world_def)
  from set_flac_md5_signature_invalid_length [OF len run] nf
  have "r = Inr False" "fs w' = fs example_world" "trace w' = trace example_world @ [FlacOpen ''song.flac'']"
    by auto
  then show ?thesis using run len tr by simp
qed

theorem fix_flac_md5_signature_early_return_witness:
  "mutagen_FLAC (example_env no_faults) ''song.flac'' example_world
     = (Inr \<lparr>sample_rate = 44, channels = 2, bits_per_sample = 16, md5_signature = 7\<rparr>,
        example_world\<lparr>trace := [FlacOpen ''song.flac'']\<rparr>)
   \<and> fix_flac_md5_signature (example_env no_faults) ''song.flac'' example_world
     = (Inr (format_032x (unat (7 :: 128 word))), example_world\<lparr>trace := [FlacOpen ''song.flac'']\<rparr>)
   \<and> length (format_032x (unat (7 :: 128 word))) = 32
   \<and> format_032x (unat (7 :: 128 word)) = ''00000000000000000000000000000007''"
proof -
  let ?E = "example_env no_faults"
  let ?info = "\<lparr>sample_rate = 44, channels = 2, bits_per_sample = 16, md5_signature = 7 :: 128 word\<rparr>"
  have op: "mutagen_FLAC ?E ''song.flac'' example_world
     = (Inr ?info, example_world\<lparr>trace := [FlacOpen ''song.flac'']\<rparr>)"
    by (simp add: mutagen_FLAC_def example_flac_parse_def io_eval)
  have nz: "md5_signature ?info \<noteq> 0" by simp
  have h7: "hex_digits 7 = ''7''"
    by (subst hex_digits.simps) (simp add: hex_digit_def)
  have r31: "replicate 31 (CHR ''0'') = ''0000000000000000000000000000000''"
    by (simp add: eval_nat_numeral)
  have hx: "format_032x (unat (7 :: 128 word)) = ''00000000000000000000000000000007''"
    by (simp add: format_032x_def h7 r31)
  from fix_flac_md5_signature_early_return [OF op nz] op hx
  show ?thesis by simp
qed

lemma os_path_isfile_world:
  "os_path_isfile E p w = (r, w') \<Longrightarrow> w' = w\<lparr>trace := trace w @ [IsFile p]\<rparr>"
  by (auto simp: os_path_isfile_def try_except_def env_call_def ret_def Let_def
      split: option.splits if_splits)

lemma os_path_isfile_True:
  "os_path_isfile E p w = (Inr True, w') \<Longrightarrow> fs w p \<noteq> None"
  by (auto simp: os_path_isfile_def try_except_def env_call_def ret_def Let_def
      split: option.splits if_splits)

lemma os_path_isfile_present:
  "fs w p = Some content \<Longrightarrow> faults E (length (trace w)) (IsFile p) = None \<Longrightarrow>
     os_path_isfile E p w = (Inr True, w\<lparr>trace := trace w @ [IsFile p]\<rparr>)"
  by (simp add: os_path_isfile_def try_except_def env_call_def ret_def Let_def)

text \<open>
  C5. If \<^verbatim>\<open>os.path.isfile(file_location)\<close> is true (line 208), \<^verbatim>\<open>download_file\<close> returns
  \<^verbatim>\<open>None\<close> at once: the world it leaves is the one the test left, whose only change is
  the test itself in the trace. No request is made (\<open>Get\<close>), the file is not opened,
  read or written, nothing is printed, for every URL, setting and environment.
\<close>

theorem download_file_existing:
  assumes present: "os_path_isfile E file_location w = (Inr True, w1)"
  shows "download_file E url file_location headers enable_progress_bar indent_level
           artwork_settings w = (Inr (), w1)
       \<and> fs w file_location \<noteq> None
       \<and> fs w1 = fs w
       \<and> stdout w1 = stdout w
       \<and> trace w1 = trace w @ [IsFile file_location]"
proof -
  from os_path_isfile_world [OF present] have "w1 = w\<lparr>trace := trace w @ [IsFile file_location]\<rparr>" .
  moreover from os_path_isfile_True [OF present] have "fs w file_location \<noteq> None" .
  moreover have "download_file E url file_location headers enable_progress_bar indent_level
           artwork_settings w = (Inr (), w1)"
    using present by (simp add: download_file_def bind_io_def ret_def)
  ultimately show ?thesis by simp
qed

theorem download_file_existing_witness:
  "fs example_world ''a.bin'' = Some [1, 2, 3]
   \<and> os_path_isfile (example_env no_faults) ''a.bin'' example_world
       = (Inr True, example_world\<lparr>trace := [IsFile ''a.bin'']\<rparr>)
   \<and> download_file (example_env no_faults) ''http://host/a.bin'' ''a.bin'' [] True 0 VNone
        example_world = (Inr (), example_world\<lparr>trace := [IsFile ''a.bin'']\<rparr>)
   \<and> fs (example_world\<lparr>trace := [IsFile ''a.bin'']\<rparr>) ''a.bin'' = Some [1, 2, 3]"
proof -
  have ex: "fs example_world ''a.bin'' = Some [1, 2, 3]" by (simp add: example_world_def)
  have nf: "faults (example_env no_faults) (length (trace example_world)) (IsFile ''a.bin'') = None"
    by (simp add: example_env_def no_faults_def)
  have tr: "trace example_world = []" by (simp add: example_world_def)
  from os_path_isfile_present [OF ex nf] tr
  have present: "os_path_isfile (example_env no_faults) ''a.bin'' example_world
       = (Inr True, example_world\<lparr>trace := [IsFile ''a.bin'']\<rparr>)" by simp
  from download_file_existing [OF present] present ex show ?thesis by simp
qed

lemma os_path_isfile_cases:
  "faults E (length (trace w)) (IsFile p) = None \<Longrightarrow>
     os_path_isfile E p w = (Inr (fs w p \<noteq> None), w\<lparr>trace := trace w @ [IsFile p]\<rparr>)"
  by (simp add: os_path_isfile_def try_except_def env_call_def Let_def)

lemma os_remove_cases:
  "os_remove E p w =
     (case faults E (length (trace w)) (Unlink p) of
        Some e \<Rightarrow> (Inl e, w\<lparr>trace := trace w @ [Unlink p]\<rparr>)
      | None \<Rightarrow>
         (case fs w p of
            None \<Rightarrow> (Inl (OSError ENOENT (''No such file or directory: '' @ p)),
                         w\<lparr>trace := trace w @ [Unlink p]\<rparr>)
          | Some content \<Rightarrow> (Inr (), w\<lparr>trace := trace w @ [Unlink p], fs := (fs w)(p := None)\<rparr>)))"
  by (simp add: os_remove_def os_unlink_def env_call_def Let_def split: option.splits)




text \<open>
  The handler is not protected itself: when \<^verbatim>\<open>os.remove\<close> fails with anything but
  \<^verbatim>\<open>ENOENT\<close>, \<^verbatim>\<open>silentremove\<close> raises it again (line 269), so that error leaves
  \<^verbatim>\<open>download_file\<close> in place of \<^verbatim>\<open>KeyboardInterrupt\<close> and the partial file stays.
\<close>

lemma download_file_removal_fails:
  assumes absent: "os_path_isfile E file_location w = (Inr False, wa)"
      and got: "session_get E url wa = (Inr resp, w0)"
      and interrupted: "download_body E resp file_location enable_progress_bar artwork_settings w0
                          = (Inl KeyboardInterrupt, w1)"
      and probe: "faults E (length (trace w1)) (IsFile file_location) = None"
      and partial: "fs w1 file_location = Some content"
      and removal: "faults E (Suc (length (trace w1))) (Unlink file_location) = Some e"
      and errno: "oserror_errno e \<noteq> Some ENOENT"
  shows "\<exists>w2. download_file E url file_location headers enable_progress_bar indent_level
                 artwork_settings w = (Inl e, w2)
            \<and> fs w2 = fs w1"
proof -
  let ?w1' = "w1\<lparr>trace := trace w1 @ [IsFile file_location]\<rparr>"
  let ?w2 = "?w1'\<lparr>stdout := stdout w1 @ [[CHR 0x09] @ ''Deleting partially downloaded file ''
                                   @ [CHR 0x22] @ file_location @ [CHR 0x22]]\<rparr>"
  have df: "download_file E url file_location headers enable_progress_bar indent_level
      artwork_settings w = download_cleanup E file_location w1"
    using absent got interrupted
    by (simp add: download_file_def bind_io_def try_except_def)
  have isf: "os_path_isfile E file_location w1 = (Inr True, ?w1')"
    using os_path_isfile_cases [OF probe] partial by simp
  have cl: "download_cleanup E file_location w1 =
      (case silentremove E file_location ?w2 of
         (Inl e, w3) \<Rightarrow> (Inl e, w3)
       | (Inr u, w3) \<Rightarrow> (Inl KeyboardInterrupt, w3))"
    using isf
    by (simp add: download_cleanup_def bind_io_def print_line_def raise_def
        split: prod.splits sum.splits)
  have "silentremove E file_location ?w2
           = (Inl e, ?w2\<lparr>trace := trace w1 @ [IsFile file_location, Unlink file_location]\<rparr>)"
    using removal errno by (simp add: silentremove_def try_except_def os_remove_cases raise_def)
  with df cl show ?thesis by simp
qed

section \<open>Properties of the tag inspector\<close>



lemma os_path_exists_present:
  "fs w p = Some content \<Longrightarrow> faults E (length (trace w)) (Exists p) = None \<Longrightarrow>
     os_path_exists E p w = (Inr True, w\<lparr>trace := trace w @ [Exists p]\<rparr>)"
  by (simp add: os_path_exists_def try_except_def env_call_def ret_def Let_def)













end
